theory Spec2Isabelle
  imports
    Complex_Main
    "HOL-Library.AList"
    "HOL-Library.Char_ord"
    "HOL-Library.Code_Target_Numeral"
    "HOL-Library.List_Lexorder"
    "HOL-Library.Multiset"
    "HOL-Library.Product_Lexorder"
begin

section \<open>JavaScript values used by the UpdateManager component\<close>

text \<open>
  The component keeps every form field as a string and leaves the conversions to
  JavaScript: \<^verbatim>\<open>!versionCode\<close>, \<^verbatim>\<open>versionCode <= 0\<close>, \<^verbatim>\<open>parseInt(versionCode)\<close>,
  \<^verbatim>\<open>parseFloat(fileSize) * 1024 * 1024\<close> and \<^verbatim>\<open>versionName.trim()\<close>.

  A JavaScript number is an IEEE 754 double. It is modelled as \<open>NaN\<close>, an infinity, or
  a finite number (\<open>Num\<close>) that holds the exact rational value of the double. Whatever
  produces a number (the reading of a literal, a product, a quotient) rounds its exact
  result to the nearest double, by \<open>to_double\<close> below. The sign of zero is not
  represented: \<open>-0\<close> is \<open>0\<close>. Strings are sequences of 8-bit characters (Latin-1).
\<close>

datatype jsnum = NaN | NInf | PInf | Num rat

text \<open>\<^verbatim>\<open>x <= y\<close> on numbers: false as soon as one side is NaN.\<close>

fun js_le :: "jsnum \<Rightarrow> jsnum \<Rightarrow> bool" where
  "js_le NaN _ = False"
| "js_le _ NaN = False"
| "js_le NInf _ = True"
| "js_le _ PInf = True"
| "js_le PInf _ = False"
| "js_le _ NInf = False"
| "js_le (Num a) (Num b) = (a \<le> b)"

text \<open>\<^verbatim>\<open>x === y\<close> on numbers: NaN is equal to nothing, itself included.\<close>

fun js_strict_eq :: "jsnum \<Rightarrow> jsnum \<Rightarrow> bool" where
  "js_strict_eq NaN _ = False"
| "js_strict_eq _ NaN = False"
| "js_strict_eq x y = (x = y)"

fun js_sign :: "jsnum \<Rightarrow> int" where
  "js_sign NaN = 0"
| "js_sign NInf = -1"
| "js_sign PInf = 1"
| "js_sign (Num a) = (if a < 0 then -1 else if a = 0 then 0 else 1)"

fun js_neg :: "jsnum \<Rightarrow> jsnum" where
  "js_neg NaN = NaN"
| "js_neg NInf = PInf"
| "js_neg PInf = NInf"
| "js_neg (Num a) = Num (- a)"

subsection \<open>Rounding to a double\<close>

text \<open>
  The nearest integer to a rational, a tie going to the even one.
\<close>

definition round_half_even :: "rat \<Rightarrow> int" where
  "round_half_even y =
     (let f = \<lfloor>y\<rfloor>; r = y - of_int f
      in if r < 1 / 2 then f else if 1 / 2 < r then f + 1 else if even f then f else f + 1)"

text \<open>
  A positive rational \<open>x\<close> is written \<open>y * 2 ^ e\<close> with \<open>2 ^ 52 \<le> y < 2 ^ 53\<close>, or, when
  it is too small for that, with \<open>e = - 1074\<close> and \<open>y < 2 ^ 52\<close> (a subnormal): \<open>halve\<close>
  brings \<open>y\<close> below \<open>2 ^ 53\<close> and \<open>twice\<close> brings it up to \<open>2 ^ 52\<close> as far as the
  least exponent allows.
\<close>

function halve :: "rat \<Rightarrow> int \<Rightarrow> rat \<times> int" where
  "halve y e = (if 2 ^ 53 \<le> y then halve (y / 2) (e + 1) else (y, e))"
  by pat_completeness auto
termination
proof (relation "measure (\<lambda>(y, e). nat \<lfloor>y\<rfloor>)")
  show "wf (measure (\<lambda>(y, e). nat \<lfloor>y\<rfloor>))" by simp
next
  fix y :: rat and e :: int
  assume a: "2 ^ 53 \<le> y"
  then have "y / 2 \<le> y - 1" by simp
  then have "\<lfloor>y / 2\<rfloor> \<le> \<lfloor>y - 1\<rfloor>" by (rule floor_mono)
  then have "\<lfloor>y / 2\<rfloor> < \<lfloor>y\<rfloor>" by simp
  moreover from a have "0 < \<lfloor>y\<rfloor>" by simp
  ultimately show "((y / 2, e + 1), (y, e)) \<in> measure (\<lambda>(y, e). nat \<lfloor>y\<rfloor>)"
    by simp
qed

function twice :: "rat \<Rightarrow> int \<Rightarrow> rat \<times> int" where
  "twice y e = (if y < 2 ^ 52 \<and> - 1074 < e then twice (y * 2) (e - 1) else (y, e))"
  by pat_completeness auto
termination
  by (relation "measure (\<lambda>(y, e). nat (e + 1074))") auto

declare halve.simps [simp del]

declare twice.simps [simp del]

text \<open>
  The double nearest to a positive rational: the 53-bit integer nearest to \<open>y\<close>, ties
  to even, scaled back; a result of \<open>2 ^ 1024\<close> or more is an infinity, and a number
  below half of the least positive double is rounded to zero.
\<close>

definition round_pos :: "rat \<Rightarrow> jsnum" where
  "round_pos x =
     (let (y1, e1) = halve x 0;
          (y, e) = twice y1 e1;
          v = of_int (round_half_even y) * 2 powi e
      in if 2 ^ 1024 \<le> v then PInf else Num v)"

definition to_double :: "rat \<Rightarrow> jsnum" where
  "to_double x =
     (if x = 0 then Num 0
      else if 0 < x then round_pos x
      else js_neg (round_pos (- x)))"

text \<open>The least positive double.\<close>

definition min_double :: rat where
  "min_double = 2 powi (- 1074)"

subsection \<open>Arithmetic\<close>

text \<open>
  \<^verbatim>\<open>x * y\<close>: NaN is absorbing, an infinity times zero is NaN, and the product of two
  finite numbers is rounded.
\<close>

fun js_mul :: "jsnum \<Rightarrow> jsnum \<Rightarrow> jsnum" where
  "js_mul NaN _ = NaN"
| "js_mul _ NaN = NaN"
| "js_mul (Num a) (Num b) = to_double (a * b)"
| "js_mul x y =
     (if js_sign x * js_sign y = 0 then NaN
      else if js_sign x * js_sign y < 0 then NInf else PInf)"

text \<open>
  \<^verbatim>\<open>x / y\<close>: the quotient of two finite numbers is rounded; a finite number divided
  by zero is NaN for \<open>0 / 0\<close> and an infinity otherwise (the zero divisor is taken as
  \<open>+0\<close>).
\<close>

fun js_div :: "jsnum \<Rightarrow> jsnum \<Rightarrow> jsnum" where
  "js_div NaN _ = NaN"
| "js_div _ NaN = NaN"
| "js_div (Num a) (Num b) =
     (if b \<noteq> 0 then to_double (a / b)
      else if a = 0 then NaN else if a < 0 then NInf else PInf)"
| "js_div (Num a) _ = Num 0"
| "js_div x (Num b) = (if (js_sign x < 0) = (b < 0) then PInf else NInf)"
| "js_div _ _ = NaN"

subsection \<open>White space and \<^verbatim>\<open>String.prototype.trim\<close>\<close>

definition is_space :: "char \<Rightarrow> bool" where
  "is_space c = (c \<in> set [CHR 0x09, CHR 0x0A, CHR 0x0B, CHR 0x0C, CHR 0x0D, CHR 0x20, CHR 0xA0])"

definition trim :: "string \<Rightarrow> string" where
  "trim s = rev (dropWhile is_space (rev (dropWhile is_space s)))"

subsection \<open>Numeric literals\<close>

definition is_digit :: "char \<Rightarrow> bool" where
  "is_digit c = (c \<in> set ''0123456789'')"

text \<open>The value of a digit in a radix up to 16, or \<open>None\<close> when it is no digit of that radix.\<close>

definition radix_digit :: "nat \<Rightarrow> char \<Rightarrow> nat option" where
  "radix_digit r c =
     (let n = of_char c :: nat;
          v = (if 48 \<le> n \<and> n \<le> 57 then Some (n - 48)
               else if 97 \<le> n \<and> n \<le> 102 then Some (n - 87)
               else if 65 \<le> n \<and> n \<le> 70 then Some (n - 55)
               else None)
      in case v of None \<Rightarrow> None | Some d \<Rightarrow> if d < r then Some d else None)"

definition digits_val :: "nat \<Rightarrow> string \<Rightarrow> nat" where
  "digits_val r ds = foldl (\<lambda>n c. r * n + (case radix_digit r c of None \<Rightarrow> 0 | Some d \<Rightarrow> d)) 0 ds"

text \<open>An optional sign: whether it is a minus, and what follows it.\<close>

fun strip_sign :: "string \<Rightarrow> bool \<times> string" where
  "strip_sign [] = (False, [])"
| "strip_sign (c # cs) =
     (if c = CHR ''-'' then (True, cs)
      else if c = CHR ''+'' then (False, cs)
      else (False, c # cs))"

text \<open>
  The exponent part \<^verbatim>\<open>e[+-]digits\<close> at the head of a string: the exponent and what
  follows it. An \<^verbatim>\<open>e\<close> that no digit follows is not an exponent part and is left in place.
\<close>

definition scan_exponent :: "string \<Rightarrow> int \<times> string" where
  "scan_exponent s =
     (case s of
        [] \<Rightarrow> (0, s)
      | c # t \<Rightarrow>
          if c = CHR ''e'' \<or> c = CHR ''E'' then
            (let (neg, u) = strip_sign t; ds = takeWhile is_digit u
             in if ds = [] then (0, s)
                else ((if neg then - int (digits_val 10 ds) else int (digits_val 10 ds)),
                      dropWhile is_digit u))
          else (0, s))"

definition pow10 :: "int \<Rightarrow> rat" where
  "pow10 e = (if e < 0 then 1 / 10 ^ nat (- e) else 10 ^ nat e)"

text \<open>
  The longest unsigned decimal literal at the head of a string (\<^verbatim>\<open>12\<close>, \<^verbatim>\<open>12.\<close>,
  \<^verbatim>\<open>12.5\<close>, \<^verbatim>\<open>.5\<close>, each with an optional exponent part): its mathematical value
  and the rest of the string; \<open>None\<close> when no digit stands there.
\<close>

definition scan_decimal :: "string \<Rightarrow> (rat \<times> string) option" where
  "scan_decimal s =
     (let ip = takeWhile is_digit s;
          r1 = dropWhile is_digit s;
          (fp, r2) = (case r1 of
                        [] \<Rightarrow> ([], r1)
                      | c # t \<Rightarrow> if c = CHR ''.'' then (takeWhile is_digit t, dropWhile is_digit t)
                                 else ([], r1))
      in if ip = [] \<and> fp = [] then None
         else (let (e, r3) = scan_exponent r2;
                   m = of_nat (digits_val 10 ip) + of_nat (digits_val 10 fp) / 10 ^ length fp
               in Some (m * pow10 e, r3)))"

text \<open>
  A signed decimal literal or \<^verbatim>\<open>Infinity\<close> at the head of a string: the number it
  denotes, which is the double nearest to the value of the literal, and the rest of the
  string. (The language lets an engine drop the digits of a literal after the 20th
  significant one; the engines in use do not, and neither does the model.)
\<close>

definition str_decimal :: "string \<Rightarrow> (jsnum \<times> string) option" where
  "str_decimal s =
     (let (neg, r) = strip_sign s
      in if take 8 r = ''Infinity'' then Some (if neg then NInf else PInf, drop 8 r)
         else (case scan_decimal r of
                 None \<Rightarrow> None
               | Some (v, rest) \<Rightarrow> Some (to_double (if neg then - v else v), rest)))"

text \<open>
  \<^verbatim>\<open>parseFloat(s)\<close>: leading white space is skipped, the longest literal at the head
  is read, anything after it is ignored.
\<close>

definition parseFloat :: "string \<Rightarrow> jsnum" where
  "parseFloat s =
     (case str_decimal (dropWhile is_space s) of None \<Rightarrow> NaN | Some (v, _) \<Rightarrow> v)"

text \<open>
  \<^verbatim>\<open>parseInt(s)\<close> with no radix argument: leading white space is skipped; after an
  optional sign, a prefix \<^verbatim>\<open>0x\<close> selects radix 16; the digits at the head are read and
  anything after them is ignored; with no digit the result is NaN, else the double
  nearest to the integer read.
\<close>

definition parseInt :: "string \<Rightarrow> jsnum" where
  "parseInt s =
     (let (neg, r) = strip_sign (dropWhile is_space s);
          hex = (take 2 r = ''0x'' \<or> take 2 r = ''0X'');
          radix = (if hex then 16 else 10);
          ds = takeWhile (\<lambda>c. radix_digit radix c \<noteq> None) (if hex then drop 2 r else r)
      in if ds = [] then NaN
         else to_double
                (of_int (if neg then - int (digits_val radix ds) else int (digits_val radix ds))))"

text \<open>
  The literals \<^verbatim>\<open>0x..\<close>, \<^verbatim>\<open>0o..\<close> and \<^verbatim>\<open>0b..\<close> that \<^verbatim>\<open>Number(s)\<close> reads (they take
  no sign): \<open>None\<close> when the string has no such prefix, else the number, which is NaN
  unless digits of the radix and then only white space follow the prefix.
\<close>

definition radix_literal :: "string \<Rightarrow> jsnum option" where
  "radix_literal s =
     (let p = take 2 s;
          r = (if p = ''0x'' \<or> p = ''0X'' then Some 16
               else if p = ''0o'' \<or> p = ''0O'' then Some 8
               else if p = ''0b'' \<or> p = ''0B'' then Some 2
               else None)
      in case r of
           None \<Rightarrow> None
         | Some radix \<Rightarrow>
             (let ds = takeWhile (\<lambda>c. radix_digit radix c \<noteq> None) (drop 2 s);
                  rest = dropWhile (\<lambda>c. radix_digit radix c \<noteq> None) (drop 2 s)
              in if ds \<noteq> [] \<and> list_all is_space rest
                 then Some (to_double (of_nat (digits_val radix ds)))
                 else Some NaN))"

text \<open>
  The conversion of a string to a number (\<^verbatim>\<open>Number(s)\<close>, applied by \<^verbatim>\<open><=\<close> to a
  string operand): white space around the literal is ignored, the empty string is 0,
  and a string that is not a literal as a whole is NaN.
\<close>

definition ToNumber :: "string \<Rightarrow> jsnum" where
  "ToNumber s =
     (let t = dropWhile is_space s
      in if t = [] then Num 0
         else (case radix_literal t of
                 Some v \<Rightarrow> v
               | None \<Rightarrow>
                   (case str_decimal t of
                      None \<Rightarrow> NaN
                    | Some (v, rest) \<Rightarrow> if list_all is_space rest then v else NaN)))"


section \<open>The version catalog: the Firestore collection \<^verbatim>\<open>app_versions\<close>\<close>

text \<open>
  One document per version, with exactly the fields that \<^verbatim>\<open>handleUpload\<close> and
  \<^verbatim>\<open>handleSubmit\<close> write. \<open>uploadedAt\<close> is a time in milliseconds.
\<close>

record version_doc =
  versionName :: string
  versionCode :: jsnum
  downloadUrl :: string
  changelog :: string
  fileSize :: jsnum
  uploadedAt :: nat
  uploadedBy :: string
  isCritical :: bool
  isActive :: bool
  downloadCount :: nat

text \<open>
  The collection maps document ids to documents; it is kept as an association list so
  that a query can enumerate it. A snapshot entry \<^verbatim>\<open>{ id: d.id, ...d.data() }\<close> is the
  pair of the id and the document.
\<close>

type_synonym store = "(string \<times> version_doc) list"

type_synonym version = "string \<times> version_doc"

datatype firestore_error = NotFound

text \<open>
  The Firestore client, as its documentation specifies it. \<^verbatim>\<open>setDoc(ref, data)\<close>
  without the merge option creates the document or replaces the one that is there.
  \<^verbatim>\<open>updateDoc(ref, fields)\<close> changes the given fields of an existing document and is
  rejected with \<^verbatim>\<open>not-found\<close> when there is none. Both go through to the backend: no
  security rule is part of the repository.
\<close>

definition setDoc :: "string \<Rightarrow> version_doc \<Rightarrow> store \<Rightarrow> store" where
  "setDoc k d db = AList.update k d db"

definition updateDoc :: "string \<Rightarrow> (version_doc \<Rightarrow> version_doc) \<Rightarrow> store \<Rightarrow> firestore_error + store" where
  "updateDoc k f db =
     (case map_of db k of
        None \<Rightarrow> Inl NotFound
      | Some _ \<Rightarrow> Inr (map (\<lambda>(k', d). if k' = k then (k', f d) else (k', d)) db))"

text \<open>
  Firestore's order on numbers puts NaN first, then \<open>-Infinity\<close>, the finite numbers
  and \<open>Infinity\<close>. \<^verbatim>\<open>orderBy("versionCode", "desc")\<close> sorts by that order, descending, and
  breaks ties by document id in the same direction.
\<close>

fun fs_key :: "jsnum \<Rightarrow> nat \<times> rat" where
  "fs_key NaN = (0, 0)"
| "fs_key NInf = (1, 0)"
| "fs_key (Num q) = (2, q)"
| "fs_key PInf = (3, 0)"

definition order_key :: "version \<Rightarrow> (nat \<times> rat) \<times> string" where
  "order_key v = (fs_key (versionCode (snd v)), fst v)"

definition app_versions_query :: "store \<Rightarrow> version list" where
  "app_versions_query db = rev (sort_key order_key db)"

text \<open>A list of versions in descending order of the version codes, and in strict order.\<close>

definition descending :: "version list \<Rightarrow> bool" where
  "descending vs =
     sorted_wrt (\<lambda>a b. fs_key (versionCode (snd b)) \<le> fs_key (versionCode (snd a))) vs"

definition strictly_descending :: "version list \<Rightarrow> bool" where
  "strictly_descending vs =
     sorted_wrt (\<lambda>a b. fs_key (versionCode (snd b)) < fs_key (versionCode (snd a))) vs"

section \<open>The component\<close>

text \<open>
  The React state of \<^verbatim>\<open>UpdateManager\<close>. The two variants of the component (upload of
  a binary, and a link to one) share the list of versions, the flag \<open>uploading\<close>, the
  error object and four form fields; the fields carry the suffix \<open>_field\<close>, since the
  documents have fields of the same names. The error object is an association list in
  insertion order, as \<^verbatim>\<open>Object.keys\<close> enumerates it.
\<close>

record form_state =
  versions :: "version list"
  uploading :: bool
  versionName_field :: string
  versionCode_field :: string
  changelog_field :: string
  isCritical_field :: bool
  errors :: "(string \<times> string) list"

record apk_file =
  file_name :: string
  file_size :: nat

record upload_state = form_state +
  selectedFile :: "apk_file option"
  uploadProgress :: jsnum

record link_state = form_state +
  downloadUrl_field :: string
  fileSize_field :: string

text \<open>What the handlers show: \<^verbatim>\<open>alert\<close> and \<^verbatim>\<open>console.error\<close> (the texts without their emoji).\<close>

datatype shown = Alert string | ConsoleError string

text \<open>
  What the surroundings decide in one run of a handler: whether \<^verbatim>\<open>new URL(s)\<close>
  accepts a string, the time \<^verbatim>\<open>new Date()\<close> returns, whether Firestore rejects the
  write, and for an upload the snapshots that the upload task reports, whether it ends
  in an error, and what \<^verbatim>\<open>getDownloadURL\<close> answers (\<open>Inl\<close>: it is rejected).
\<close>

record upload_snapshot =
  bytesTransferred :: nat
  totalBytes :: nat

record env =
  url_parses :: "string \<Rightarrow> bool"
  now :: nat
  write_error :: "string option"
  snapshots :: "upload_snapshot list"
  upload_error :: "string option"
  download_url :: "string + string"

subsection \<open>The listener and the latest version\<close>

text \<open>
  \<^verbatim>\<open>onSnapshot(q, (snapshot) => setVersions(snapshot.docs.map(...)))\<close>: each delivery
  replaces \<open>versions\<close> by the ordered result of the query.
\<close>

definition onSnapshot :: "store \<Rightarrow> 'a form_state_scheme \<Rightarrow> 'a form_state_scheme" where
  "onSnapshot db st = st\<lparr>versions := app_versions_query db\<rparr>"

definition latestVersion :: "'a form_state_scheme \<Rightarrow> version option" where
  "latestVersion st = (if length (versions st) > 0 then Some (hd (versions st)) else None)"

subsection \<open>Validation\<close>

text \<open>
  \<^verbatim>\<open>validateForm\<close> of the upload variant: the object \<open>newErrors\<close> it builds, then the
  state with \<open>errors\<close> set and the boolean it returns.
\<close>

definition newErrors_upload :: "upload_state \<Rightarrow> (string \<times> string) list" where
  "newErrors_upload st =
     (let e0 = [];
          e1 = (if selectedFile st = None
                then AList.update ''file'' ''Please select an APK file'' e0 else e0);
          e2 = (if trim (versionName_field st) = []
                then AList.update ''versionName'' ''Version name is required'' e1 else e1);
          e3 = (if versionCode_field st = [] \<or> js_le (ToNumber (versionCode_field st)) (Num 0)
                then AList.update ''versionCode'' ''Valid version code is required'' e2 else e2);
          e4 = (if trim (changelog_field st) = []
                then AList.update ''changelog'' ''Changelog is required'' e3 else e3);
          e5 = (if list_ex (\<lambda>v. js_strict_eq (versionCode (snd v)) (parseInt (versionCode_field st)))
                     (versions st)
                then AList.update ''versionCode'' ''Version code already exists'' e4 else e4)
      in e5)"

definition validateForm_upload :: "upload_state \<Rightarrow> upload_state \<times> bool" where
  "validateForm_upload st =
     (let newErrors = newErrors_upload st
      in (st\<lparr>errors := newErrors\<rparr>, length (map fst newErrors) = 0))"

text \<open>\<^verbatim>\<open>validateForm\<close> of the link variant.\<close>

definition newErrors_link :: "(string \<Rightarrow> bool) \<Rightarrow> link_state \<Rightarrow> (string \<times> string) list" where
  "newErrors_link parses st =
     (let e0 = [];
          e1 = (if trim (downloadUrl_field st) = []
                then AList.update ''downloadUrl'' ''Download URL is required'' e0
                else if \<not> parses (downloadUrl_field st)
                then AList.update ''downloadUrl'' ''Invalid URL format'' e0 else e0);
          e2 = (if trim (versionName_field st) = []
                then AList.update ''versionName'' ''Version name is required'' e1 else e1);
          e3 = (if versionCode_field st = [] \<or> js_le (ToNumber (versionCode_field st)) (Num 0)
                then AList.update ''versionCode'' ''Valid version code is required'' e2 else e2);
          e4 = (if trim (changelog_field st) = []
                then AList.update ''changelog'' ''Changelog is required'' e3 else e3);
          e5 = (if fileSize_field st = [] \<or> js_le (ToNumber (fileSize_field st)) (Num 0)
                then AList.update ''fileSize'' ''File size is required'' e4 else e4);
          e6 = (if list_ex (\<lambda>v. js_strict_eq (versionCode (snd v)) (parseInt (versionCode_field st)))
                     (versions st)
                then AList.update ''versionCode'' ''Version code already exists'' e5 else e5)
      in e6)"

definition validateForm_link :: "(string \<Rightarrow> bool) \<Rightarrow> link_state \<Rightarrow> link_state \<times> bool" where
  "validateForm_link parses st =
     (let newErrors = newErrors_link parses st
      in (st\<lparr>errors := newErrors\<rparr>, length (map fst newErrors) = 0))"

subsection \<open>Admission of a version\<close>

text \<open>
  The progress handler of the upload task:
  \<^verbatim>\<open>setUploadProgress((snapshot.bytesTransferred / snapshot.totalBytes) * 100)\<close>.
  The byte counts of a snapshot are natural numbers; the quotient is rounded, and the
  product of the rounded quotient and 100 is rounded again.
\<close>

definition on_state_changed :: "upload_snapshot \<Rightarrow> upload_state \<Rightarrow> upload_state" where
  "on_state_changed snapshot st =
     (let progress = js_mul (js_div (Num (of_nat (bytesTransferred snapshot)))
                                    (Num (of_nat (totalBytes snapshot)))) (Num 100)
      in st\<lparr>uploadProgress := progress\<rparr>)"

text \<open>
  \<^verbatim>\<open>handleUpload\<close>, with the callbacks of the upload task run in the order the task
  calls them: the progress handler on every snapshot, then the error handler or the
  completion handler (\<^verbatim>\<open>ref\<close> and \<^verbatim>\<open>uploadBytesResumable\<close> themselves do not throw).
  A rejection inside the completion handler (of \<^verbatim>\<open>getDownloadURL\<close>
  or of \<^verbatim>\<open>setDoc\<close>) is caught by nothing: the handler stops there, the form stays as it
  is and \<open>uploading\<close> stays set.
\<close>

definition handleUpload :: "env \<Rightarrow> upload_state \<times> store \<Rightarrow> upload_state \<times> store \<times> shown list" where
  "handleUpload e = (\<lambda>(st, db).
     (let (st1, valid) = validateForm_upload st
      in if \<not> valid then (st1, db, [])
         else
           (let st2 = st1\<lparr>uploading := True, uploadProgress := Num 0\<rparr>;
                st3 = foldl (\<lambda>s snapshot. on_state_changed snapshot s) st2 (snapshots e)
            in case upload_error e of
                 Some msg \<Rightarrow>
                   (st3\<lparr>uploading := False\<rparr>, db,
                    [ConsoleError ''Upload error:'', Alert (''Upload failed: '' @ msg)])
               | None \<Rightarrow>
                   (case (download_url e, selectedFile st3, write_error e) of
                      (Inr url, Some f, None) \<Rightarrow>
                        (st3\<lparr>selectedFile := None, versionName_field := [], versionCode_field := [],
                             changelog_field := [], isCritical_field := False,
                             uploadProgress := Num 0, uploading := False\<rparr>,
                         setDoc (''version_'' @ versionCode_field st3)
                           \<lparr>versionName = trim (versionName_field st3),
                            versionCode = parseInt (versionCode_field st3),
                            downloadUrl = url,
                            changelog = trim (changelog_field st3),
                            fileSize = Num (of_nat (file_size f)),
                            uploadedAt = now e,
                            uploadedBy = ''admin'',
                            isCritical = isCritical_field st3,
                            isActive = True,
                            downloadCount = 0\<rparr> db,
                         [Alert ''APK uploaded successfully!''])
                    | _ \<Rightarrow> (st3, db, [])))))"

text \<open>
  \<^verbatim>\<open>handleSubmit\<close> of the link variant. Here the write stands inside \<^verbatim>\<open>try\<close>: a
  rejection is reported by an alert.
\<close>

definition handleSubmit :: "env \<Rightarrow> link_state \<times> store \<Rightarrow> link_state \<times> store \<times> shown list" where
  "handleSubmit e = (\<lambda>(st, db).
     (let (st1, valid) = validateForm_link (url_parses e) st
      in if \<not> valid then (st1, db, [])
         else
           (let st2 = st1\<lparr>uploading := True\<rparr>;
                fileSizeInBytes = js_mul (js_mul (parseFloat (fileSize_field st2)) (Num 1024)) (Num 1024)
            in case write_error e of
                 Some msg \<Rightarrow>
                   (st2\<lparr>uploading := False\<rparr>, db,
                    [ConsoleError ''Error saving version:'', Alert (''Error: '' @ msg)])
               | None \<Rightarrow>
                   (st2\<lparr>downloadUrl_field := [], versionName_field := [], versionCode_field := [],
                        changelog_field := [], fileSize_field := [], isCritical_field := True,
                        uploading := False\<rparr>,
                    setDoc (''version_'' @ versionCode_field st2)
                      \<lparr>versionName = trim (versionName_field st2),
                       versionCode = parseInt (versionCode_field st2),
                       downloadUrl = trim (downloadUrl_field st2),
                       changelog = trim (changelog_field st2),
                       fileSize = fileSizeInBytes,
                       uploadedAt = now e,
                       uploadedBy = ''admin'',
                       isCritical = isCritical_field st2,
                       isActive = True,
                       downloadCount = 0\<rparr> db,
                    [Alert ''Version added successfully!'']))))"

subsection \<open>The switch of a version\<close>

text \<open>
  \<^verbatim>\<open>toggleVersionStatus(versionId, currentStatus)\<close>, the same in both variants. The
  first component is what the caller's \<^verbatim>\<open>await\<close> gets: the function has no
  \<^verbatim>\<open>return\<close> and catches the rejection of \<^verbatim>\<open>updateDoc\<close>, so its promise is always
  fulfilled, with no value.
\<close>

definition toggleVersionStatus ::
  "string \<Rightarrow> bool \<Rightarrow> store \<Rightarrow> (firestore_error + unit) \<times> store \<times> shown list" where
  "toggleVersionStatus versionId currentStatus db =
     (case updateDoc versionId (\<lambda>d. d\<lparr>isActive := \<not> currentStatus\<rparr>) db of
        Inr db' \<Rightarrow> (Inr (), db', [])
      | Inl error \<Rightarrow> (Inr (), db, [ConsoleError ''Error toggling status:'']))"

section \<open>A running example\<close>

text \<open>
  Scenario A of the specification: an operator whose list of versions is still empty
  admits version 18, by link and by upload, into an empty catalog. In the example
  \<^verbatim>\<open>new URL\<close> accepts the strings that start with \<^verbatim>\<open>https://\<close>, and the upload task
  reports three snapshots of a file of 1000000 bytes.
\<close>

definition example_env :: env where
  "example_env =
     \<lparr>url_parses = (\<lambda>s. take 8 s = ''https://''), now = 1000, write_error = None,
      snapshots = [\<lparr>bytesTransferred = 0, totalBytes = 1000000\<rparr>,
                   \<lparr>bytesTransferred = 262144, totalBytes = 1000000\<rparr>,
                   \<lparr>bytesTransferred = 1000000, totalBytes = 1000000\<rparr>],
      upload_error = None, download_url = Inr ''https://cdn.example.com/a.apk''\<rparr>"

definition example_link :: link_state where
  "example_link =
     \<lparr>versions = [], uploading = False, versionName_field = ''1.10'',
      versionCode_field = ''18'', changelog_field = ''fixes'', isCritical_field = True,
      errors = [], downloadUrl_field = ''https://example.com/a.apk'',
      fileSize_field = ''25.5''\<rparr>"

definition example_upload :: upload_state where
  "example_upload =
     \<lparr>versions = [], uploading = False, versionName_field = ''1.10'',
      versionCode_field = ''18'', changelog_field = ''fixes'', isCritical_field = True,
      errors = [], selectedFile = Some \<lparr>file_name = ''app.apk'', file_size = 1000000\<rparr>,
      uploadProgress = Num 0\<rparr>"

definition example_db :: store where
  "example_db = fst (snd (handleSubmit example_env (example_link, [])))"

text \<open>
  Two further catalogs. In \<open>second_db\<close> the operator, whose list of versions is up to
  date, has admitted version 20 as well. In \<open>duplicate_db\<close> an operator whose list of
  versions is still empty (the listener has not delivered yet, or the page is another
  operator's) has admitted the version code \<^verbatim>\<open>18.0\<close> after version 18.
\<close>

definition second_db :: store where
  "second_db =
     fst (snd (handleSubmit (example_env\<lparr>now := 3000\<rparr>)
                 (onSnapshot example_db (example_link\<lparr>versionCode_field := ''20''\<rparr>),
                  example_db)))"

definition duplicate_db :: store where
  "duplicate_db =
     fst (snd (handleSubmit (example_env\<lparr>now := 2000\<rparr>)
                 (example_link\<lparr>versionCode_field := ''18.0''\<rparr>, example_db)))"

text \<open>
  In \<open>nan_db\<close> the operator has admitted, into an empty catalog, the version code
  \<^verbatim>\<open>.5\<close>, which has no integer part for \<^verbatim>\<open>parseInt\<close> to read.
\<close>

definition nan_db :: store where
  "nan_db = fst (snd (handleSubmit example_env (example_link\<lparr>versionCode_field := ''.5''\<rparr>, [])))"

section \<open>The rounding to a double\<close>

text \<open>The facts that evaluate the rounding of a given number.\<close>

lemma floor_rat_numeral: "\<lfloor>(numeral a :: rat) / numeral b\<rfloor> = numeral a div numeral b"
  by (metis floor_divide_of_int_eq of_int_numeral)

lemmas rd_defs = to_double_def round_pos_def halve.simps twice.simps round_half_even_def Let_def
  floor_rat_numeral

subsection \<open>The normal form of a positive number\<close>

lemma pow2_pos: "0 < (2::rat) powi e"
  by (simp add: zero_less_power_int)

lemma pow2_Suc: "(2::rat) powi (e + 1) = 2 * 2 powi e"
  by (simp add: power_int_add)

lemma pow2_pred: "(2::rat) powi (e - 1) = 2 powi e / 2"
  by (simp add: power_int_diff)

lemma pow2_step: "e < e' \<Longrightarrow> 2 * (2::rat) powi e \<le> 2 powi e'"
proof -
  assume "e < e'"
  then have "e + 1 \<le> e'" by simp
  then have "(2::rat) powi (e + 1) \<le> 2 powi e'" by (intro power_int_increasing) simp_all
  then show ?thesis by (simp add: pow2_Suc)
qed

lemma halve_spec:
  "halve y e = (y', e') \<Longrightarrow>
   y' < 2 ^ 53 \<and> y' * 2 powi e' = y * 2 powi e \<and> e \<le> e' \<and> (0 < y \<longrightarrow> 0 < y')
   \<and> (y' = y \<and> e' = e \<or> 2 ^ 52 \<le> y')"
proof (induction y e rule: halve.induct)
  case (1 y e)
  show ?case
  proof (cases "2 ^ 53 \<le> y")
    case True
    with "1.prems" have h: "halve (y / 2) (e + 1) = (y', e')"
      by (subst (asm) halve.simps) simp
    from "1.IH" [OF True h]
    have ih: "y' < 2 ^ 53" "y' * 2 powi e' = y / 2 * 2 powi (e + 1)" "e + 1 \<le> e'"
      "0 < y / 2 \<longrightarrow> 0 < y'" "y' = y / 2 \<and> e' = e + 1 \<or> 2 ^ 52 \<le> y'"
      by simp_all
    from ih(5) True have "2 ^ 52 \<le> y'" by auto
    with ih show ?thesis by (simp add: pow2_Suc)
  next
    case False
    with "1.prems" show ?thesis
      by (subst (asm) halve.simps) simp
  qed
qed

lemma twice_spec:
  "twice y e = (y', e') \<Longrightarrow> y < 2 ^ 53 \<Longrightarrow> - 1074 \<le> e \<Longrightarrow>
   y' < 2 ^ 53 \<and> y' * 2 powi e' = y * 2 powi e \<and> - 1074 \<le> e' \<and> (0 < y \<longrightarrow> 0 < y')
   \<and> (2 ^ 52 \<le> y' \<or> e' = - 1074)"
proof (induction y e rule: twice.induct)
  case (1 y e)
  show ?case
  proof (cases "y < 2 ^ 52 \<and> - 1074 < e")
    case True
    with "1.prems"(1) have h: "twice (y * 2) (e - 1) = (y', e')"
      by (subst (asm) twice.simps) simp
    from True have "y * 2 < 2 ^ 53" and "- 1074 \<le> e - 1" by simp_all
    from "1.IH" [OF True h this]
    show ?thesis by (simp add: pow2_pred)
  next
    case False
    with "1.prems"(1) have "(y', e') = (y, e)"
      by (subst (asm) twice.simps) (auto split: if_splits)
    then have "y' = y" "e' = e" by simp_all
    with False "1.prems" show ?thesis by auto
  qed
qed

text \<open>The normal form of a positive number.\<close>

lemma norm_spec:
  assumes "0 < x" and "halve x 0 = (y1, e1)" and "twice y1 e1 = (y, e)"
  shows "0 < y" "y < 2 ^ 53" "y * 2 powi e = x" "- 1074 \<le> e" "2 ^ 52 \<le> y \<or> e = - 1074"
proof -
  from halve_spec [OF assms(2)] assms(1)
  have h: "y1 < 2 ^ 53" "y1 * 2 powi e1 = x" "0 \<le> e1" "0 < y1" by simp_all
  then have "- 1074 \<le> e1" by simp
  from twice_spec [OF assms(3) h(1) this] h
  show "0 < y" "y < 2 ^ 53" "y * 2 powi e = x" "- 1074 \<le> e" "2 ^ 52 \<le> y \<or> e = - 1074"
    by simp_all
qed

subsection \<open>Rounding to the nearest integer\<close>

lemma rhe_bounds: "of_int (round_half_even y) \<le> y + 1 / 2" "y - 1 / 2 \<le> of_int (round_half_even y)"
  unfolding round_half_even_def Let_def by (auto simp: ) linarith+

lemma rhe_of_int [simp]: "round_half_even (of_int n) = n"
  by (simp add: round_half_even_def)

lemma rhe_mono:
  assumes "y \<le> y'"
  shows "round_half_even y \<le> round_half_even y'"
proof (cases "\<lfloor>y\<rfloor> < \<lfloor>y'\<rfloor>")
  case True
  have "round_half_even y \<le> \<lfloor>y\<rfloor> + 1"
    by (simp add: round_half_even_def Let_def)
  moreover have "\<lfloor>y'\<rfloor> \<le> round_half_even y'"
    by (simp add: round_half_even_def Let_def)
  ultimately show ?thesis using True by linarith
next
  case False
  with assms have f: "\<lfloor>y\<rfloor> = \<lfloor>y'\<rfloor>" by (meson floor_mono leD le_neq_trans)
  with assms have "y - of_int \<lfloor>y\<rfloor> \<le> y' - of_int \<lfloor>y'\<rfloor>" by simp
  then show ?thesis
    unfolding round_half_even_def Let_def f by auto
qed

subsection \<open>The rounding is monotone, and keeps what is positive away from zero\<close>

lemma min_double_pos: "0 < min_double"
  unfolding min_double_def by (rule pow2_pos)

lemma min_double_le: "- 1074 \<le> e \<Longrightarrow> min_double \<le> 2 powi e"
  unfolding min_double_def by (intro power_int_increasing) simp_all

text \<open>The value before the overflow test.\<close>

lemma round_pos_value:
  assumes "0 < x"
  obtains y e where "0 < y" "y < 2 ^ 53" "y * 2 powi e = x" "- 1074 \<le> e"
    "2 ^ 52 \<le> y \<or> e = - 1074"
    "round_pos x = (if (2::rat) ^ 1024 \<le> of_int (round_half_even y) * 2 powi e then PInf
                    else Num (of_int (round_half_even y) * 2 powi e))"
proof -
  obtain y1 e1 where h: "halve x 0 = (y1, e1)" by (cases "halve x 0")
  obtain y e where t: "twice y1 e1 = (y, e)" by (cases "twice y1 e1")
  have "round_pos x = (if (2::rat) ^ 1024 \<le> of_int (round_half_even y) * 2 powi e then PInf
                    else Num (of_int (round_half_even y) * 2 powi e))"
    by (simp add: round_pos_def h t)
  with norm_spec [OF assms h t] that show ?thesis by blast
qed

lemma rhe_ge_int: "of_int n \<le> y \<Longrightarrow> n \<le> round_half_even y"
  using rhe_mono [of "of_int n" y] by simp

lemma rhe_le_int: "y \<le> of_int n \<Longrightarrow> round_half_even y \<le> n"
  using rhe_mono [of y "of_int n"] by simp

lemma round_pos_mono:
  assumes "0 < x" and "x \<le> x'"
  shows "js_le (round_pos x) (round_pos x')"
proof -
  from assms have x': "0 < x'" by simp
  obtain y e where n: "0 < y" "y < 2 ^ 53" "y * 2 powi e = x" "- 1074 \<le> e"
    "2 ^ 52 \<le> y \<or> e = - 1074"
    and r: "round_pos x = (if (2::rat) ^ 1024 \<le> of_int (round_half_even y) * 2 powi e then PInf
                    else Num (of_int (round_half_even y) * 2 powi e))"
    by (rule round_pos_value [OF assms(1)])
  obtain y' e' where n': "0 < y'" "y' < 2 ^ 53" "y' * 2 powi e' = x'" "- 1074 \<le> e'"
    "2 ^ 52 \<le> y' \<or> e' = - 1074"
    and r': "round_pos x' = (if (2::rat) ^ 1024 \<le> of_int (round_half_even y') * 2 powi e' then PInf
                    else Num (of_int (round_half_even y') * 2 powi e'))"
    by (rule round_pos_value [OF x'])
  let ?v = "of_int (round_half_even y) * (2::rat) powi e"
  let ?v' = "of_int (round_half_even y') * (2::rat) powi e'"
  have le: "e \<le> e'"
  proof (rule ccontr)
    assume "\<not> e \<le> e'"
    then have lt: "e' < e" by simp
    with n'(4) n(5) have "2 ^ 52 \<le> y" by auto
    then have "2 ^ 52 * 2 powi e \<le> y * 2 powi e"
      by (intro mult_right_mono) (simp_all add: pow2_pos less_imp_le)
    moreover have "y' * 2 powi e' < 2 ^ 53 * 2 powi e'"
      using n'(2) by (intro mult_strict_right_mono) (simp_all add: pow2_pos)
    moreover have "2 ^ 53 * (2::rat) powi e' \<le> 2 ^ 52 * 2 powi e"
      using pow2_step [OF lt] by simp
    ultimately have "x' < x" using n(3) n'(3) by linarith
    with assms show False by simp
  qed
  have v: "?v \<le> ?v'"
  proof (cases "e = e'")
    case True
    from assms(2) n(3) n'(3) True have "y * 2 powi e \<le> y' * 2 powi e" by simp
    then have "y \<le> y'" by (simp add: pow2_pos)
    then have "round_half_even y \<le> round_half_even y'" by (rule rhe_mono)
    then have "of_int (round_half_even y) * (2::rat) powi e
                 \<le> of_int (round_half_even y') * 2 powi e"
      by (intro mult_right_mono) (simp_all add: pow2_pos less_imp_le)
    then show ?thesis
      by (simp add: True)
  next
    case False
    with le have lt: "e < e'" by simp
    with n(4) n'(5) have "2 ^ 52 \<le> y'" by auto
    then have "of_int (2 ^ 52) \<le> y'" by simp
    then have "2 ^ 52 \<le> round_half_even y'" by (rule rhe_ge_int)
    then have a: "2 ^ 52 * 2 powi e' \<le> ?v'"
      by (intro mult_right_mono) (simp_all add: pow2_pos less_imp_le of_int_le_iff [symmetric] del: of_int_le_iff)
    from n(2) have "y \<le> of_int (2 ^ 53)" by simp
    then have "round_half_even y \<le> 2 ^ 53" by (rule rhe_le_int)
    then have b: "?v \<le> 2 ^ 53 * 2 powi e"
      by (intro mult_right_mono) (simp_all add: pow2_pos less_imp_le of_int_le_iff [symmetric] del: of_int_le_iff)
    have "2 ^ 53 * (2::rat) powi e \<le> 2 ^ 52 * 2 powi e'"
      using pow2_step [OF lt] by simp
    with a b show ?thesis by linarith
  qed
  show ?thesis
    unfolding r r' using v by auto
qed

lemma round_pos_nonneg:
  assumes "0 < x"
  shows "round_pos x = PInf \<or> (\<exists>q. round_pos x = Num q \<and> 0 \<le> q)"
proof -
  obtain y e where n: "0 < y"
    and r: "round_pos x = (if (2::rat) ^ 1024 \<le> of_int (round_half_even y) * 2 powi e then PInf
                    else Num (of_int (round_half_even y) * 2 powi e))"
    by (rule round_pos_value [OF assms])
  from n have "of_int 0 \<le> y" by simp
  then have "0 \<le> round_half_even y" by (rule rhe_ge_int)
  then have "0 \<le> of_int (round_half_even y) * (2::rat) powi e"
    by (simp add: pow2_pos less_imp_le)
  then show ?thesis unfolding r by auto
qed

text \<open>A number that is not below the least positive double is not rounded to zero.\<close>

lemma round_pos_positive:
  assumes "min_double \<le> x"
  shows "round_pos x = PInf \<or> (\<exists>q. round_pos x = Num q \<and> min_double \<le> q)"
proof -
  have x: "0 < x" using assms min_double_pos by linarith
  obtain y e where n: "0 < y" "y < 2 ^ 53" "y * 2 powi e = x" "- 1074 \<le> e"
    "2 ^ 52 \<le> y \<or> e = - 1074"
    and r: "round_pos x = (if (2::rat) ^ 1024 \<le> of_int (round_half_even y) * 2 powi e then PInf
                    else Num (of_int (round_half_even y) * 2 powi e))"
    by (rule round_pos_value [OF x])
  have "1 \<le> y"
  proof (cases "e = - 1074")
    case True
    with n(3) assms have "1 * min_double \<le> y * min_double"
      by (simp only: min_double_def mult_1)
    then show ?thesis by (simp only: mult_le_cancel_right_pos min_double_pos)
  next
    case False
    with n(5) have "2 ^ 52 \<le> y" by simp
    then show ?thesis by simp
  qed
  then have "of_int 1 \<le> y" by simp
  then have "1 \<le> round_half_even y" by (rule rhe_ge_int)
  then have "1 * (2::rat) powi e \<le> of_int (round_half_even y) * 2 powi e"
    by (intro mult_right_mono) (simp_all add: pow2_pos less_imp_le)
  then have "(2::rat) powi e \<le> of_int (round_half_even y) * 2 powi e"
    by (simp only: mult_1)
  with min_double_le [OF n(4)]
  have "min_double \<le> of_int (round_half_even y) * (2::rat) powi e"
    by (rule order_trans)
  then show ?thesis unfolding r by auto
qed

text \<open>A positive double is not below the least positive double.\<close>

lemma round_pos_result:
  assumes "0 < x" and "round_pos x = Num q" and "0 < q"
  shows "min_double \<le> q"
proof -
  obtain y e where n: "- 1074 \<le> e"
    and r: "round_pos x = (if (2::rat) ^ 1024 \<le> of_int (round_half_even y) * 2 powi e then PInf
                    else Num (of_int (round_half_even y) * 2 powi e))"
    by (rule round_pos_value [OF assms(1)])
  from r assms(2) have q: "q = of_int (round_half_even y) * 2 powi e"
    by (auto split: if_splits)
  with assms(3) have "0 < of_int (round_half_even y) * (2::rat) powi e" by simp
  then have "0 < (of_int (round_half_even y) :: rat)"
    by (rule zero_less_mult_pos2) (rule pow2_pos)
  then have "1 \<le> round_half_even y" by simp
  then have "1 * (2::rat) powi e \<le> of_int (round_half_even y) * 2 powi e"
    by (intro mult_right_mono) (simp_all add: pow2_pos less_imp_le)
  then have "(2::rat) powi e \<le> of_int (round_half_even y) * 2 powi e"
    by (simp only: mult_1)
  with min_double_le [OF n]
  have "min_double \<le> of_int (round_half_even y) * (2::rat) powi e"
    by (rule order_trans)
  then show ?thesis by (simp only: q)
qed

lemma to_double_mono:
  assumes "0 \<le> x" and "x \<le> x'"
  shows "js_le (to_double x) (to_double x')"
proof (cases "x = 0")
  case True
  show ?thesis
  proof (cases "x' = 0")
    case True
    with \<open>x = 0\<close> show ?thesis by (simp add: to_double_def)
  next
    case False
    with assms True have "0 < x'" by simp
    with round_pos_nonneg [OF this] True show ?thesis
      by (auto simp: to_double_def)
  qed
next
  case False
  with assms have "0 < x" "0 < x'" by simp_all
  with round_pos_mono [OF \<open>0 < x\<close> assms(2)] show ?thesis
    by (simp add: to_double_def)
qed

lemma to_double_not_NaN: "to_double x \<noteq> NaN"
proof -
  have "round_pos y \<noteq> NaN" for y
    by (simp add: round_pos_def Let_def split: prod.splits)
  then show ?thesis
    by (auto simp: to_double_def) (metis js_neg.elims jsnum.distinct)
qed

subsection \<open>Doubles are rounded to themselves\<close>








lemma to_double_nonneg:
  assumes "0 \<le> x"
  shows "to_double x = PInf \<or> (\<exists>q. to_double x = Num q \<and> 0 \<le> q)"
proof (cases "x = 0")
  case True
  then show ?thesis by (simp add: to_double_def)
next
  case False
  with assms have "0 < x" by simp
  with round_pos_nonneg [OF this] show ?thesis by (simp add: to_double_def)
qed

lemma to_double_1: "to_double 1 = Num 1"
  by (simp add: rd_defs)

lemma to_double_100: "to_double 100 = Num 100"
  by (simp add: rd_defs)

lemma to_double_unit:
  assumes "0 \<le> x" and "x \<le> 1"
  obtains r where "to_double x = Num r" "0 \<le> r" "r \<le> 1"
proof -
  from to_double_mono [OF assms] have "js_le (to_double x) (Num 1)" by (simp add: to_double_1)
  with to_double_nonneg [OF assms(1)] that show ?thesis by auto
qed

lemma to_double_percent:
  assumes "0 \<le> r" and "r \<le> 1"
  obtains p where "to_double (r * 100) = Num p" "0 \<le> p" "p \<le> 100"
proof -
  from assms have a: "0 \<le> r * 100" "r * 100 \<le> 100" by simp_all
  from to_double_mono [OF a] have "js_le (to_double (r * 100)) (Num 100)"
    by (simp add: to_double_100)
  with to_double_nonneg [OF a(1)] that show ?thesis by auto
qed

section \<open>Evaluation and auxiliary facts\<close>

lemmas js_defs = ToNumber_def parseInt_def parseFloat_def radix_literal_def str_decimal_def
  scan_decimal_def scan_exponent_def digits_val_def radix_digit_def pow10_def is_digit_def
  is_space_def trim_def rd_defs

lemmas handler_defs = handleSubmit_def handleUpload_def validateForm_link_def
  validateForm_upload_def newErrors_link_def newErrors_upload_def setDoc_def
  on_state_changed_def

lemmas example_defs = example_env_def example_link_def example_upload_def

lemma example_db_eq:
  "example_db =
     [(''version_18'',
       \<lparr>versionName = ''1.10'', versionCode = Num 18,
        downloadUrl = ''https://example.com/a.apk'', changelog = ''fixes'',
        fileSize = Num 26738688, uploadedAt = 1000, uploadedBy = ''admin'',
        isCritical = True, isActive = True, downloadCount = 0\<rparr>)]"
  by (simp add: example_db_def example_defs handler_defs js_defs)

subsection \<open>The query commutes with a change that keeps the order keys\<close>

lemma insort_key_map_same:
  "(\<And>y. g (f y) = g y) \<Longrightarrow> insort_key g (f x) (map f xs) = map f (insort_key g x xs)"
  by (induction xs) simp_all

lemma sort_key_map_same:
  "(\<And>y. g (f y) = g y) \<Longrightarrow> sort_key g (map f xs) = map f (sort_key g xs)"
  by (induction xs) (simp_all add: insort_key_map_same)

lemma query_map_same:
  "(\<And>v. order_key (f v) = order_key v) \<Longrightarrow>
   app_versions_query (map f db) = map f (app_versions_query db)"
  by (simp add: app_versions_query_def sort_key_map_same rev_map)

lemma map_of_map_upd:
  "map_of (map (\<lambda>(k', d). if k' = k then (k', f d) else (k', d)) db) x =
     (if x = k then map_option f (map_of db k) else map_of db x)"
  by (induction db) auto

lemma updateDoc_found:
  "map_of db k = Some d \<Longrightarrow>
   updateDoc k f db = Inr (map (\<lambda>(k', d). if k' = k then (k', f d) else (k', d)) db)"
  by (simp add: updateDoc_def)

section \<open>Validation\<close>

subsection \<open>The fields that validation reports\<close>

lemma keys_cond_update:
  "fst ` set (if c then AList.update k v e else e) = (if c then {k} else {}) \<union> fst ` set e"
  by (simp add: dom_update)

lemma keys_cond_update2:
  "fst ` set (if c then AList.update k v e else if c' then AList.update k v' e else e)
     = (if c \<or> c' then {k} else {}) \<union> fst ` set e"
  by (simp add: dom_update)

lemma union_reorder:
  "(if g then {c} else {}) \<union> (F \<union> (C \<union> ((if b1 \<or> b2 then {c} else {}) \<union> (N \<union> (U \<union> {})))))
     = U \<union> N \<union> (if b1 \<or> b2 \<or> g then {c} else {}) \<union> C \<union> F"
  by (cases g; cases "b1 \<or> b2") (simp_all add: Un_ac)

lemma union_reorder_upload:
  "(if g then {c} else {}) \<union> (C \<union> ((if b1 \<or> b2 then {c} else {}) \<union> (N \<union> (U \<union> {}))))
     = U \<union> N \<union> (if b1 \<or> b2 \<or> g then {c} else {}) \<union> C"
  by (cases g; cases "b1 \<or> b2") (simp_all add: Un_ac)

lemma keys_newErrors_link:
  "fst ` set (newErrors_link parses st) =
     (if trim (downloadUrl_field st) = [] \<or> \<not> parses (downloadUrl_field st)
      then {''downloadUrl''} else {})
     \<union> (if trim (versionName_field st) = [] then {''versionName''} else {})
     \<union> (if versionCode_field st = [] \<or> js_le (ToNumber (versionCode_field st)) (Num 0)
            \<or> list_ex (\<lambda>v. js_strict_eq (versionCode (snd v)) (parseInt (versionCode_field st)))
                 (versions st)
         then {''versionCode''} else {})
     \<union> (if trim (changelog_field st) = [] then {''changelog''} else {})
     \<union> (if fileSize_field st = [] \<or> js_le (ToNumber (fileSize_field st)) (Num 0)
         then {''fileSize''} else {})"
proof -
  have "fst ` set (newErrors_link parses st) =
     (if list_ex (\<lambda>v. js_strict_eq (versionCode (snd v)) (parseInt (versionCode_field st)))
           (versions st)
      then {''versionCode''} else {})
     \<union> ((if fileSize_field st = [] \<or> js_le (ToNumber (fileSize_field st)) (Num 0)
          then {''fileSize''} else {})
     \<union> ((if trim (changelog_field st) = [] then {''changelog''} else {})
     \<union> ((if versionCode_field st = [] \<or> js_le (ToNumber (versionCode_field st)) (Num 0)
          then {''versionCode''} else {})
     \<union> ((if trim (versionName_field st) = [] then {''versionName''} else {})
     \<union> ((if trim (downloadUrl_field st) = [] \<or> \<not> parses (downloadUrl_field st)
          then {''downloadUrl''} else {})
     \<union> {})))))"
    unfolding newErrors_link_def Let_def
    by (simp only: keys_cond_update keys_cond_update2 list.set image_empty)
  then show ?thesis
    by (simp only: union_reorder)
qed

lemma keys_newErrors_upload:
  "fst ` set (newErrors_upload st) =
     (if selectedFile st = None then {''file''} else {})
     \<union> (if trim (versionName_field st) = [] then {''versionName''} else {})
     \<union> (if versionCode_field st = [] \<or> js_le (ToNumber (versionCode_field st)) (Num 0)
            \<or> list_ex (\<lambda>v. js_strict_eq (versionCode (snd v)) (parseInt (versionCode_field st)))
                 (versions st)
         then {''versionCode''} else {})
     \<union> (if trim (changelog_field st) = [] then {''changelog''} else {})"
proof -
  have "fst ` set (newErrors_upload st) =
     (if list_ex (\<lambda>v. js_strict_eq (versionCode (snd v)) (parseInt (versionCode_field st)))
           (versions st)
      then {''versionCode''} else {})
     \<union> ((if trim (changelog_field st) = [] then {''changelog''} else {})
     \<union> ((if versionCode_field st = [] \<or> js_le (ToNumber (versionCode_field st)) (Num 0)
          then {''versionCode''} else {})
     \<union> ((if trim (versionName_field st) = [] then {''versionName''} else {})
     \<union> ((if selectedFile st = None then {''file''} else {})
     \<union> {}))))"
    unfolding newErrors_upload_def Let_def
    by (simp only: keys_cond_update list.set image_empty)
  then show ?thesis
    by (simp only: union_reorder_upload)
qed

lemma distinct_cond_update:
  "distinct (map fst e) \<Longrightarrow> distinct (map fst (if c then AList.update k v e else e))"
  by (simp add: distinct_update)

lemma distinct_newErrors_link: "distinct (map fst (newErrors_link parses st))"
  unfolding newErrors_link_def Let_def
  by (intro distinct_cond_update) (simp add: distinct_update)

lemma distinct_newErrors_upload: "distinct (map fst (newErrors_upload st))"
  unfolding newErrors_upload_def Let_def
  by (intro distinct_cond_update) simp

lemma ToNumber_0: "ToNumber ''0'' = Num 0"
  by (simp add: js_defs)

subsection \<open>What validation returns\<close>

text \<open>
  \<^verbatim>\<open>validateForm\<close> sets the error object to one entry for each field whose check
  fails, and returns whether there is none: no check hides another.
\<close>

lemma validateForm_link_result:
  "errors (fst (validateForm_link parses st)) = newErrors_link parses st
   \<and> fst (validateForm_link parses st) = st\<lparr>errors := newErrors_link parses st\<rparr>
   \<and> snd (validateForm_link parses st) = (fst ` set (newErrors_link parses st) = {})"
  by (simp add: validateForm_link_def Let_def)

lemma validateForm_upload_result:
  "errors (fst (validateForm_upload st)) = newErrors_upload st
   \<and> fst (validateForm_upload st) = st\<lparr>errors := newErrors_upload st\<rparr>
   \<and> snd (validateForm_upload st) = (fst ` set (newErrors_upload st) = {})"
  by (simp add: validateForm_upload_def Let_def)

text \<open>
  The check of the version code is \<^verbatim>\<open>!versionCode || versionCode <= 0\<close>, followed by
  the search of the operator's list: the field is reported exactly when it is empty, or
  its numeric value is at most 0, or \<^verbatim>\<open>parseInt\<close> of it is the code of a version in the
  list.
\<close>

lemma versionCode_reported:
  "(''versionCode'' \<in> fst ` set (errors (fst (validateForm_link parses st)))) =
     (versionCode_field st = [] \<or> js_le (ToNumber (versionCode_field st)) (Num 0)
      \<or> list_ex (\<lambda>v. js_strict_eq (versionCode (snd v)) (parseInt (versionCode_field st)))
           (versions st))"
  "(''versionCode'' \<in> fst ` set (errors (fst (validateForm_upload ust)))) =
     (versionCode_field ust = [] \<or> js_le (ToNumber (versionCode_field ust)) (Num 0)
      \<or> list_ex (\<lambda>v. js_strict_eq (versionCode (snd v)) (parseInt (versionCode_field ust)))
           (versions ust))"
  by (simp_all add: validateForm_link_result validateForm_upload_result
      keys_newErrors_link keys_newErrors_upload)

lemma not_an_integer: "(37 / 2 :: rat) \<notin> \<int>"
proof
  assume "(37 / 2 :: rat) \<in> \<int>"
  then obtain n :: int where "(37 / 2 :: rat) = of_int n" by (auto elim: Ints_cases)
  then have "(37 :: rat) = of_int (2 * n)" by simp
  then have "(37 :: int) = 2 * n" by (metis of_int_eq_iff of_int_numeral)
  then show False by presburger
qed

subsection \<open>A version code that is not an integer\<close>

text \<open>
  Claim C4. The claim asks for a violation on every version code that is absent, not
  an integer, or at most 0. The upload form labels the field \<^verbatim>\<open>Version Code (integer)\<close>
  and both variants store \<^verbatim>\<open>parseInt(versionCode)\<close>, but \<^verbatim>\<open>validateForm\<close> has no test
  for an integer. The version code \<^verbatim>\<open>18.5\<close>, whose value is the number 18.5, is accepted
  by both variants: validation returns true with no error, and the version is stored
  with the code 18 under the id \<^verbatim>\<open>version_18.5\<close>.
\<close>

theorem fractional_versionCode_accepted:
  "ToNumber ''18.5'' = Num (37 / 2)
   \<and> (37 / 2 :: rat) \<notin> \<int>
   \<and> validateForm_link (url_parses example_env) (example_link\<lparr>versionCode_field := ''18.5''\<rparr>)
       = (example_link\<lparr>versionCode_field := ''18.5'', errors := []\<rparr>, True)
   \<and> validateForm_upload (example_upload\<lparr>versionCode_field := ''18.5''\<rparr>)
       = (example_upload\<lparr>versionCode_field := ''18.5'', errors := []\<rparr>, True)
   \<and> map (\<lambda>(k, d). (k, versionCode d))
        (fst (snd (handleSubmit example_env (example_link\<lparr>versionCode_field := ''18.5''\<rparr>, []))))
       = [(''version_18.5'', Num 18)]
   \<and> map (\<lambda>(k, d). (k, versionCode d))
        (fst (snd (handleUpload example_env (example_upload\<lparr>versionCode_field := ''18.5''\<rparr>, []))))
       = [(''version_18.5'', Num 18)]"
  using not_an_integer by (simp add: example_defs handler_defs js_defs)

subsection \<open>Two violations, one entry\<close>

text \<open>
  Claim C3. The claim asks for one entry for every violated field. A draft with a
  blank changelog and the version code 0 gets the two entries the claim names. A draft
  with a blank changelog and the version code \<^verbatim>\<open>18.5\<close> has two violations as well (the
  changelog is empty, the version code is not an integer), but \<^verbatim>\<open>validateForm\<close> has no
  test for an integer: in both variants it sets the one entry \<open>changelog\<close>.
\<close>

theorem two_violations_one_entry:
  "validateForm_link (url_parses example_env)
       (example_link\<lparr>versionCode_field := ''18.5'', changelog_field := []\<rparr>)
     = (example_link\<lparr>versionCode_field := ''18.5'', changelog_field := [],
          errors := [(''changelog'', ''Changelog is required'')]\<rparr>, False)
   \<and> validateForm_upload (example_upload\<lparr>versionCode_field := ''18.5'', changelog_field := []\<rparr>)
     = (example_upload\<lparr>versionCode_field := ''18.5'', changelog_field := [],
          errors := [(''changelog'', ''Changelog is required'')]\<rparr>, False)
   \<and> validateForm_link (url_parses example_env)
       (example_link\<lparr>versionCode_field := ''0'', changelog_field := []\<rparr>)
     = (example_link\<lparr>versionCode_field := ''0'', changelog_field := [],
          errors := [(''versionCode'', ''Valid version code is required''),
                     (''changelog'', ''Changelog is required'')]\<rparr>, False)
   \<and> validateForm_upload (example_upload\<lparr>versionCode_field := ''0'', changelog_field := []\<rparr>)
     = (example_upload\<lparr>versionCode_field := ''0'', changelog_field := [],
          errors := [(''versionCode'', ''Valid version code is required''),
                     (''changelog'', ''Changelog is required'')]\<rparr>, False)"
  by (simp add: example_defs handler_defs js_defs)

section \<open>Admission\<close>

subsection \<open>What the handlers do with a valid and with an invalid draft\<close>

text \<open>The progress handler changes the progress and nothing else.\<close>

lemma progress_fold:
  "\<exists>p. foldl (\<lambda>s snapshot. on_state_changed snapshot s) st snaps = st\<lparr>uploadProgress := p\<rparr>"
proof (induction snaps arbitrary: st)
  case Nil
  have "st = st\<lparr>uploadProgress := uploadProgress st\<rparr>" by simp
  then show ?case by (metis foldl_Nil)
next
  case (Cons x xs)
  obtain q where q: "on_state_changed x st = st\<lparr>uploadProgress := q\<rparr>"
    by (simp add: on_state_changed_def Let_def)
  from Cons [of "on_state_changed x st"] obtain p where
    "foldl (\<lambda>s snapshot. on_state_changed snapshot s) (on_state_changed x st) xs
       = (on_state_changed x st)\<lparr>uploadProgress := p\<rparr>" by blast
  then have "foldl (\<lambda>s snapshot. on_state_changed snapshot s) st (x # xs) = st\<lparr>uploadProgress := p\<rparr>"
    by (simp add: q)
  then show ?case by blast
qed

lemma valid_link_iff: "snd (validateForm_link parses st) \<longleftrightarrow> newErrors_link parses st = []"
  by (simp add: validateForm_link_def Let_def)

lemma valid_upload_iff: "snd (validateForm_upload st) \<longleftrightarrow> newErrors_upload st = []"
  by (simp add: validateForm_upload_def Let_def)

lemma valid_upload_file:
  assumes "newErrors_upload st = []"
  shows "selectedFile st \<noteq> None"
proof
  assume "selectedFile st = None"
  then have "''file'' \<in> fst ` set (newErrors_upload st)"
    by (simp add: keys_newErrors_upload)
  with assms show False by simp
qed

lemma handleSubmit_valid:
  assumes "newErrors_link (url_parses e) st = []" and "write_error e = None"
  shows "fst (snd (handleSubmit e (st, db))) =
           setDoc (''version_'' @ versionCode_field st)
             \<lparr>versionName = trim (versionName_field st),
              versionCode = parseInt (versionCode_field st),
              downloadUrl = trim (downloadUrl_field st),
              changelog = trim (changelog_field st),
              fileSize = js_mul (js_mul (parseFloat (fileSize_field st)) (Num 1024)) (Num 1024),
              uploadedAt = now e, uploadedBy = ''admin'',
              isCritical = isCritical_field st, isActive = True, downloadCount = 0\<rparr> db"
  using assms by (simp add: handleSubmit_def validateForm_link_def Let_def)

lemma handleUpload_valid:
  assumes "newErrors_upload st = []" and "write_error e = None" and "upload_error e = None"
    and "download_url e = Inr url" and "selectedFile st = Some f"
  shows "fst (snd (handleUpload e (st, db))) =
           setDoc (''version_'' @ versionCode_field st)
             \<lparr>versionName = trim (versionName_field st),
              versionCode = parseInt (versionCode_field st),
              downloadUrl = url,
              changelog = trim (changelog_field st),
              fileSize = Num (of_nat (file_size f)),
              uploadedAt = now e, uploadedBy = ''admin'',
              isCritical = isCritical_field st, isActive = True, downloadCount = 0\<rparr> db"
proof -
  let ?st2 = "st\<lparr>errors := [], uploading := True, uploadProgress := Num 0\<rparr>"
  obtain p where p: "foldl (\<lambda>s snapshot. on_state_changed snapshot s) ?st2 (snapshots e)
      = ?st2\<lparr>uploadProgress := p\<rparr>"
    using progress_fold by blast
  show ?thesis
    using assms by (simp add: handleUpload_def validateForm_upload_def Let_def p)
qed

subsection \<open>The committed record\<close>

text \<open>
  When the draft passes validation and the write goes through (in the upload variant:
  the transfer ends without error and the download URL is resolved), the document whose
  id is \<^verbatim>\<open>version_\<close> followed by the text of the version code field holds the new
  version, with \<open>uploadedAt\<close> the time of the admission, \<open>downloadCount\<close> 0 and
  \<open>isActive\<close> true; its \<open>versionCode\<close> is \<^verbatim>\<open>parseInt\<close> of that text. No other document
  changes.
\<close>

lemma committed_under_entered_text:
  "(snd (validateForm_link (url_parses e) st) \<and> write_error e = None \<longrightarrow>
      (case handleSubmit e (st, db) of
         (st', db', out) \<Rightarrow>
           map_option (\<lambda>d. (versionCode d, uploadedAt d, downloadCount d, isActive d))
               (map_of db' (''version_'' @ versionCode_field st))
             = Some (parseInt (versionCode_field st), now e, 0, True)
           \<and> (\<forall>k. k \<noteq> ''version_'' @ versionCode_field st \<longrightarrow> map_of db' k = map_of db k)))
   \<and> (snd (validateForm_upload ust) \<and> upload_error e = None \<and> download_url e = Inr url
        \<and> write_error e = None \<longrightarrow>
      (case handleUpload e (ust, db) of
         (st', db', out) \<Rightarrow>
           map_option (\<lambda>d. (versionCode d, uploadedAt d, downloadCount d, isActive d))
               (map_of db' (''version_'' @ versionCode_field ust))
             = Some (parseInt (versionCode_field ust), now e, 0, True)
           \<and> (\<forall>k. k \<noteq> ''version_'' @ versionCode_field ust \<longrightarrow> map_of db' k = map_of db k)))"
proof (intro conjI impI)
  assume a: "snd (validateForm_link (url_parses e) st) \<and> write_error e = None"
  then have v: "newErrors_link (url_parses e) st = []" and w: "write_error e = None"
    by (simp_all add: valid_link_iff)
  obtain st' db' out where r: "handleSubmit e (st, db) = (st', db', out)"
    by (cases "handleSubmit e (st, db)")
  have d: "fst (snd (handleSubmit e (st, db))) = db'" by (simp add: r)
  show "case handleSubmit e (st, db) of
         (st', db', out) \<Rightarrow>
           map_option (\<lambda>d. (versionCode d, uploadedAt d, downloadCount d, isActive d))
               (map_of db' (''version_'' @ versionCode_field st))
             = Some (parseInt (versionCode_field st), now e, 0, True)
           \<and> (\<forall>k. k \<noteq> ''version_'' @ versionCode_field st \<longrightarrow> map_of db' k = map_of db k)"
    unfolding r using handleSubmit_valid [OF v w, of db]
    by (simp add: d setDoc_def update_conv')
next
  assume a: "snd (validateForm_upload ust) \<and> upload_error e = None \<and> download_url e = Inr url
        \<and> write_error e = None"
  then have v: "newErrors_upload ust = []" and w: "write_error e = None"
    and u: "upload_error e = None" and g: "download_url e = Inr url"
    by (simp_all add: valid_upload_iff)
  from valid_upload_file [OF v] obtain f where f: "selectedFile ust = Some f" by blast
  obtain st' db' out where r: "handleUpload e (ust, db) = (st', db', out)"
    by (cases "handleUpload e (ust, db)")
  have d: "fst (snd (handleUpload e (ust, db))) = db'" by (simp add: r)
  show "case handleUpload e (ust, db) of
         (st', db', out) \<Rightarrow>
           map_option (\<lambda>d. (versionCode d, uploadedAt d, downloadCount d, isActive d))
               (map_of db' (''version_'' @ versionCode_field ust))
             = Some (parseInt (versionCode_field ust), now e, 0, True)
           \<and> (\<forall>k. k \<noteq> ''version_'' @ versionCode_field ust \<longrightarrow> map_of db' k = map_of db k)"
    unfolding r using handleUpload_valid [OF v w u g f, of db]
    by (simp add: d setDoc_def update_conv')
qed

text \<open>
  Claim C9. The claim asks for the record under the key \<^verbatim>\<open>version_{versionCode}\<close>. The
  handlers build the id from the text of the field (\<^verbatim>\<open>`version_${versionCode}`\<close>) and
  the stored code from \<^verbatim>\<open>parseInt\<close> of it, and the two part whenever the text is not
  the decimal form of the integer. The version code \<^verbatim>\<open>18.0\<close> passes validation in both
  variants; the record, with \<open>uploadedAt\<close> the time of the admission, \<open>downloadCount\<close> 0
  and \<open>isActive\<close> true, has the version code 18 and is stored under the id
  \<^verbatim>\<open>version_18.0\<close>: there is no document \<^verbatim>\<open>version_18\<close>.
\<close>

theorem key_from_entered_text:
  "parseInt ''18.0'' = Num 18
   \<and> handleSubmit example_env (example_link\<lparr>versionCode_field := ''18.0''\<rparr>, [])
     = (example_link\<lparr>downloadUrl_field := [], versionName_field := [], versionCode_field := [],
           changelog_field := [], fileSize_field := [], isCritical_field := True\<rparr>,
        [(''version_18.0'',
          \<lparr>versionName = ''1.10'', versionCode = Num 18,
           downloadUrl = ''https://example.com/a.apk'', changelog = ''fixes'',
           fileSize = Num 26738688, uploadedAt = 1000, uploadedBy = ''admin'',
           isCritical = True, isActive = True, downloadCount = 0\<rparr>)],
        [Alert ''Version added successfully!''])
   \<and> fst (snd (handleUpload example_env (example_upload\<lparr>versionCode_field := ''18.0''\<rparr>, [])))
     = [(''version_18.0'',
          \<lparr>versionName = ''1.10'', versionCode = Num 18,
           downloadUrl = ''https://cdn.example.com/a.apk'', changelog = ''fixes'',
           fileSize = Num 1000000, uploadedAt = 1000, uploadedBy = ''admin'',
           isCritical = True, isActive = True, downloadCount = 0\<rparr>)]
   \<and> map_of (fst (snd (handleSubmit example_env
                          (example_link\<lparr>versionCode_field := ''18.0''\<rparr>, [])))) ''version_18''
     = None
   \<and> map_of (fst (snd (handleUpload example_env
                          (example_upload\<lparr>versionCode_field := ''18.0''\<rparr>, [])))) ''version_18''
     = None"
  by (simp add: example_defs handler_defs js_defs)

subsection \<open>A duplicate version code\<close>

lemma set_query: "set (app_versions_query db) = set db"
  by (simp add: app_versions_query_def)

lemma js_strict_eq_same: "x \<noteq> NaN \<Longrightarrow> js_strict_eq x x"
  by (cases x) simp_all

lemma duplicate_message_link:
  assumes "list_ex (\<lambda>v. js_strict_eq (versionCode (snd v)) (parseInt (versionCode_field st)))
             (versions st)"
  shows "map_of (newErrors_link parses st) ''versionCode'' = Some ''Version code already exists''"
  using assms unfolding newErrors_link_def Let_def
  by (simp only: if_True update_conv' fun_upd_same)

lemma duplicate_message_upload:
  assumes "list_ex (\<lambda>v. js_strict_eq (versionCode (snd v)) (parseInt (versionCode_field st)))
             (versions st)"
  shows "map_of (newErrors_upload st) ''versionCode'' = Some ''Version code already exists''"
  using assms unfolding newErrors_upload_def Let_def
  by (simp only: if_True update_conv' fun_upd_same)

lemma handleSubmit_invalid:
  "newErrors_link (url_parses e) st \<noteq> [] \<Longrightarrow>
   handleSubmit e (st, db) = (st\<lparr>errors := newErrors_link (url_parses e) st\<rparr>, db, [])"
  by (simp add: handleSubmit_def validateForm_link_def Let_def)

lemma handleUpload_invalid:
  "newErrors_upload st \<noteq> [] \<Longrightarrow>
   handleUpload e (st, db) = (st\<lparr>errors := newErrors_upload st\<rparr>, db, [])"
  by (simp add: handleUpload_def validateForm_upload_def Let_def)

text \<open>
  Claim C1, as the code has it. The check for a duplicate is made by validation, against
  the operator's list of versions, with \<^verbatim>\<open>===\<close>. When that list is the current snapshot
  of a catalog that holds a version whose code is a number (not NaN), a draft whose
  version code reads (\<^verbatim>\<open>parseInt\<close>) as that number is rejected in both variants: the
  error \<^verbatim>\<open>Version code already exists\<close> is set on \<open>versionCode\<close>, nothing is shown,
  and the catalog is unchanged.
\<close>

theorem duplicate_rejected_in_view:
  assumes "(k, d) \<in> set db" and "versionCode d \<noteq> NaN"
  shows "(versions st = app_versions_query db
            \<and> parseInt (versionCode_field st) = versionCode d \<longrightarrow>
            handleSubmit e (st, db) = (st\<lparr>errors := newErrors_link (url_parses e) st\<rparr>, db, [])
            \<and> map_of (newErrors_link (url_parses e) st) ''versionCode''
                = Some ''Version code already exists'')
       \<and> (versions ust = app_versions_query db
            \<and> parseInt (versionCode_field ust) = versionCode d \<longrightarrow>
            handleUpload e (ust, db) = (ust\<lparr>errors := newErrors_upload ust\<rparr>, db, [])
            \<and> map_of (newErrors_upload ust) ''versionCode''
                = Some ''Version code already exists'')"
proof (intro conjI impI)
  assume a: "versions st = app_versions_query db
               \<and> parseInt (versionCode_field st) = versionCode d"
  have "list_ex (\<lambda>v. js_strict_eq (versionCode (snd v)) (parseInt (versionCode_field st)))
          (versions st)"
    unfolding list_ex_iff using assms a
    by (auto simp: set_query js_strict_eq_same intro!: bexI [of _ "(k, d)"])
  then show m: "map_of (newErrors_link (url_parses e) st) ''versionCode''
                = Some ''Version code already exists''"
    by (rule duplicate_message_link)
  then have "newErrors_link (url_parses e) st \<noteq> []" by auto
  then show "handleSubmit e (st, db) = (st\<lparr>errors := newErrors_link (url_parses e) st\<rparr>, db, [])"
    by (rule handleSubmit_invalid)
next
  assume a: "versions ust = app_versions_query db
               \<and> parseInt (versionCode_field ust) = versionCode d"
  have "list_ex (\<lambda>v. js_strict_eq (versionCode (snd v)) (parseInt (versionCode_field ust)))
          (versions ust)"
    unfolding list_ex_iff using assms a
    by (auto simp: set_query js_strict_eq_same intro!: bexI [of _ "(k, d)"])
  then show m: "map_of (newErrors_upload ust) ''versionCode''
                = Some ''Version code already exists''"
    by (rule duplicate_message_upload)
  then have "newErrors_upload ust \<noteq> []" by auto
  then show "handleUpload e (ust, db) = (ust\<lparr>errors := newErrors_upload ust\<rparr>, db, [])"
    by (rule handleUpload_invalid)
qed

theorem duplicate_rejected_in_view_witness:
  "(''version_18'', hd (map snd example_db)) \<in> set example_db
   \<and> versionCode (hd (map snd example_db)) = Num 18
   \<and> versions (onSnapshot example_db example_link) = app_versions_query example_db
   \<and> versions (onSnapshot example_db example_upload) = app_versions_query example_db
   \<and> parseInt (versionCode_field example_link) = Num 18
   \<and> parseInt (versionCode_field example_upload) = Num 18
   \<and> fst (snd (handleSubmit example_env (onSnapshot example_db example_link, example_db)))
       = example_db
   \<and> fst (snd (handleUpload example_env (onSnapshot example_db example_upload, example_db)))
       = example_db
   \<and> errors (fst (handleSubmit example_env (onSnapshot example_db example_link, example_db)))
       = [(''versionCode'', ''Version code already exists'')]"
  using duplicate_rejected_in_view [where k = "''version_18''" and d = "hd (map snd example_db)"
      and db = example_db and st = "onSnapshot example_db example_link"
      and ust = "onSnapshot example_db example_upload" and e = example_env]
  by (simp add: example_db_eq onSnapshot_def app_versions_query_def example_defs
      handler_defs js_defs)

text \<open>
  The claim as the specification states it fails: the write itself is unconditional.
  With version 18 in the catalog and an operator's list that is still empty, a second
  draft for code 18 passes validation, replaces the document \<^verbatim>\<open>version_18\<close> (the
  changelog \<^verbatim>\<open>fixes\<close> is gone) and is reported as a success.

  The check in the list needs a number, too. The version code \<^verbatim>\<open>.5\<close> passes validation
  (see claim C4) and is stored as NaN, which \<^verbatim>\<open>===\<close> finds equal to nothing: with that
  version in the catalog and in the operator's list, a second draft for \<^verbatim>\<open>.5\<close> passes
  validation and replaces the document \<^verbatim>\<open>version_.5\<close>.
\<close>

theorem stale_view_overwrite_counterexample:
  "map_option changelog (map_of example_db ''version_18'') = Some ''fixes''
   \<and> versions example_link = []
   \<and> handleSubmit (example_env\<lparr>now := 2000\<rparr>)
        (example_link\<lparr>changelog_field := ''rewritten'', isCritical_field := False\<rparr>, example_db)
      = (example_link\<lparr>downloadUrl_field := [], versionName_field := [], versionCode_field := [],
            changelog_field := [], fileSize_field := [], isCritical_field := True\<rparr>,
         [(''version_18'',
           \<lparr>versionName = ''1.10'', versionCode = Num 18,
            downloadUrl = ''https://example.com/a.apk'', changelog = ''rewritten'',
            fileSize = Num 26738688, uploadedAt = 2000, uploadedBy = ''admin'',
            isCritical = False, isActive = True, downloadCount = 0\<rparr>)],
         [Alert ''Version added successfully!''])
   \<and> map (\<lambda>(k, d). (k, versionCode d, changelog d)) nan_db = [(''version_.5'', NaN, ''fixes'')]
   \<and> versions (onSnapshot nan_db example_link) = nan_db
   \<and> map (\<lambda>(k, d). (k, versionCode d, changelog d))
        (fst (snd (handleSubmit (example_env\<lparr>now := 2000\<rparr>)
                     (onSnapshot nan_db
                        (example_link\<lparr>versionCode_field := ''.5'',
                                       changelog_field := ''rewritten''\<rparr>),
                      nan_db))))
      = [(''version_.5'', NaN, ''rewritten'')]"
proof -
  have n: "nan_db =
     [(''version_.5'',
       \<lparr>versionName = ''1.10'', versionCode = NaN,
        downloadUrl = ''https://example.com/a.apk'', changelog = ''fixes'',
        fileSize = Num 26738688, uploadedAt = 1000, uploadedBy = ''admin'',
        isCritical = True, isActive = True, downloadCount = 0\<rparr>)]"
    by (simp add: nan_db_def example_defs handler_defs js_defs)
  show ?thesis
    by (simp add: n example_db_eq onSnapshot_def app_versions_query_def example_defs
        handler_defs js_defs)
qed

subsection \<open>The file size of a link\<close>
















section \<open>The order of the catalog\<close>

text \<open>
  The key of Firestore's order is injective, and on finite numbers it is the order of
  the numbers.
\<close>

lemma fs_key_inj: "fs_key a = fs_key b \<Longrightarrow> a = b"
  by (cases a; cases b) simp_all

lemma fs_key_Num: "fs_key (Num a) \<le> fs_key (Num b) \<longleftrightarrow> a \<le> b"
  by simp

lemma query_sorted:
  "sorted_wrt (\<lambda>a b. order_key b \<le> order_key a) (app_versions_query db)"
proof -
  have "sorted (map order_key (sort_key order_key db))" by (rule sorted_sort_key)
  then have "sorted_wrt (\<lambda>a b. order_key a \<le> order_key b) (sort_key order_key db)"
    by (simp add: sorted_map)
  then show ?thesis
    by (simp add: app_versions_query_def sorted_wrt_rev)
qed

lemma lex_fst_le: "((a::'a::linorder), (x::'b::linorder)) \<le> (b, y) \<Longrightarrow> a \<le> b"
  by (auto simp: less_eq_prod_def)

lemma query_sorted_codes:
  "sorted_wrt (\<lambda>a b. fs_key (versionCode (snd b)) \<le> fs_key (versionCode (snd a)))
     (app_versions_query db)"
proof (rule sorted_wrt_mono_rel [OF _ query_sorted])
  fix a b :: version
  assume "order_key b \<le> order_key a"
  then show "fs_key (versionCode (snd b)) \<le> fs_key (versionCode (snd a))"
    unfolding order_key_def by (rule lex_fst_le)
qed

lemma mset_query: "mset (app_versions_query db) = mset db"
  by (simp add: app_versions_query_def)

lemma distinct_query: "distinct (map f (app_versions_query db)) = distinct (map f db)"
proof -
  have "mset (map f (app_versions_query db)) = mset (map f db)"
    by (simp add: mset_query)
  then show ?thesis by (rule mset_eq_imp_distinct_iff)
qed

lemma strict_from_distinct:
  fixes k :: "'c \<Rightarrow> 'k::order"
  assumes "sorted_wrt (\<lambda>a b. k (c b) \<le> k (c a)) xs" and "distinct (map c xs)"
    and inj: "\<And>x y. k x = k y \<Longrightarrow> x = y"
  shows "sorted_wrt (\<lambda>a b. k (c b) < k (c a)) xs"
  using assms(1,2)
proof (induction xs)
  case Nil
  then show ?case by simp
next
  case (Cons x xs)
  have "k (c y) < k (c x)" if "y \<in> set xs" for y
  proof -
    from Cons.prems that have "k (c y) \<le> k (c x)" and "c y \<noteq> c x"
      by (auto simp: image_iff)
    then show ?thesis using inj [of "c y" "c x"] by (auto simp: less_le)
  qed
  with Cons show ?case by simp
qed

lemma query_strictly_sorted:
  assumes "distinct (map (\<lambda>v. versionCode (snd v)) db)"
  shows "sorted_wrt (\<lambda>a b. fs_key (versionCode (snd b)) < fs_key (versionCode (snd a)))
           (app_versions_query db)"
proof -
  have d: "distinct (map (\<lambda>v. versionCode (snd v)) (app_versions_query db))"
    using assms by (simp add: distinct_query)
  show ?thesis
    by (rule strict_from_distinct [where c = "\<lambda>v. versionCode (snd v)" and k = fs_key,
          OF query_sorted_codes d fs_key_inj])
qed

lemma second_db_eq:
  "second_db =
     [(''version_18'',
       \<lparr>versionName = ''1.10'', versionCode = Num 18,
        downloadUrl = ''https://example.com/a.apk'', changelog = ''fixes'',
        fileSize = Num 26738688, uploadedAt = 1000, uploadedBy = ''admin'',
        isCritical = True, isActive = True, downloadCount = 0\<rparr>),
      (''version_20'',
       \<lparr>versionName = ''1.10'', versionCode = Num 20,
        downloadUrl = ''https://example.com/a.apk'', changelog = ''fixes'',
        fileSize = Num 26738688, uploadedAt = 3000, uploadedBy = ''admin'',
        isCritical = True, isActive = True, downloadCount = 0\<rparr>)]"
  by (simp add: second_db_def example_db_eq onSnapshot_def app_versions_query_def
      example_defs handler_defs js_defs)

lemma duplicate_db_eq:
  "duplicate_db =
     [(''version_18'',
       \<lparr>versionName = ''1.10'', versionCode = Num 18,
        downloadUrl = ''https://example.com/a.apk'', changelog = ''fixes'',
        fileSize = Num 26738688, uploadedAt = 1000, uploadedBy = ''admin'',
        isCritical = True, isActive = True, downloadCount = 0\<rparr>),
      (''version_18.0'',
       \<lparr>versionName = ''1.10'', versionCode = Num 18,
        downloadUrl = ''https://example.com/a.apk'', changelog = ''fixes'',
        fileSize = Num 26738688, uploadedAt = 2000, uploadedBy = ''admin'',
        isCritical = True, isActive = True, downloadCount = 0\<rparr>)]"
  by (simp add: duplicate_db_def example_db_eq example_defs handler_defs js_defs)

text \<open>
  Claim C2, as the code has it. Each delivery of the listener sets the list of versions
  to the documents of the catalog, sorted by version code in descending order; the order
  is strict whenever the version codes in the catalog are pairwise distinct. The latest
  version is the first element of that list: a version of the catalog whose code is
  the greatest, whatever its \<open>isActive\<close>; there is none exactly when the catalog is
  empty.
\<close>

theorem snapshot_order:
  "mset (versions (onSnapshot db st)) = mset db
   \<and> descending (versions (onSnapshot db st))
   \<and> (distinct (map (\<lambda>v. versionCode (snd v)) db) \<longrightarrow>
        strictly_descending (versions (onSnapshot db st)))
   \<and> latestVersion (onSnapshot db st) =
        (case versions (onSnapshot db st) of [] \<Rightarrow> None | v # _ \<Rightarrow> Some v)
   \<and> (\<forall>v. latestVersion (onSnapshot db st) = Some v \<longrightarrow>
          v \<in> set db
          \<and> (\<forall>w \<in> set db. fs_key (versionCode (snd w)) \<le> fs_key (versionCode (snd v))))
   \<and> (latestVersion (onSnapshot db st) = None) = (db = [])"
proof -
  have v: "versions (onSnapshot db st) = app_versions_query db"
    by (simp add: onSnapshot_def)
  have l: "latestVersion (onSnapshot db st) =
        (case app_versions_query db of [] \<Rightarrow> None | v # _ \<Rightarrow> Some v)"
    by (simp add: latestVersion_def v split: list.splits)
  have e: "(app_versions_query db = []) = (db = [])"
    by (metis mset_query mset_zero_iff)
  have m: "v \<in> set db
          \<and> (\<forall>w \<in> set db. fs_key (versionCode (snd w)) \<le> fs_key (versionCode (snd v)))"
    if "latestVersion (onSnapshot db st) = Some v" for v
  proof -
    from that obtain rest where r: "app_versions_query db = v # rest"
      by (auto simp: l split: list.splits)
    have s: "set db = insert v (set rest)"
      using mset_query [of db] by (metis r list.simps(15) mset_eq_setD)
    from query_sorted_codes [of db]
    have "\<forall>w \<in> set rest. fs_key (versionCode (snd w)) \<le> fs_key (versionCode (snd v))"
      by (simp add: r)
    then show ?thesis by (simp add: s)
  qed
  show ?thesis
    unfolding v l
    using m by (auto simp: mset_query query_sorted_codes query_strictly_sorted e l
        descending_def strictly_descending_def split: list.splits)
qed

theorem snapshot_order_witness:
  "distinct (map (\<lambda>v. versionCode (snd v)) second_db)
   \<and> strictly_descending (versions (onSnapshot second_db example_link))
   \<and> map fst (versions (onSnapshot second_db example_link)) = [''version_20'', ''version_18'']
   \<and> map (\<lambda>v. versionCode (snd v)) (versions (onSnapshot second_db example_link))
       = [Num 20, Num 18]
   \<and> map_option fst (latestVersion (onSnapshot second_db example_link)) = Some ''version_20''"
  using snapshot_order [where db = second_db and st = example_link]
  by (simp add: second_db_eq onSnapshot_def latestVersion_def app_versions_query_def
      order_key_def)

text \<open>
  The claim as the specification states it fails: the catalog \<open>duplicate_db\<close>, which the
  component itself has written, holds two versions with code 18, and its snapshot is
  not strictly descending.
\<close>

theorem duplicate_code_counterexample:
  "map (\<lambda>v. versionCode (snd v)) (versions (onSnapshot duplicate_db example_link))
       = [Num 18, Num 18]
   \<and> set (map fst (versions (onSnapshot duplicate_db example_link)))
       = {''version_18'', ''version_18.0''}
   \<and> \<not> strictly_descending (versions (onSnapshot duplicate_db example_link))"
proof -
  have "versions (onSnapshot duplicate_db example_link) =
          [(''version_18.0'', snd (duplicate_db ! 1)), (''version_18'', snd (duplicate_db ! 0))]"
    by (simp add: duplicate_db_eq onSnapshot_def app_versions_query_def order_key_def)
  then show ?thesis
    by (simp add: duplicate_db_eq insert_commute strictly_descending_def)
qed

section \<open>The progress of an upload\<close>

lemma progress_value:
  "0 < totalBytes s \<Longrightarrow>
   uploadProgress (on_state_changed s st)
     = js_mul (to_double (of_nat (bytesTransferred s) / of_nat (totalBytes s))) (Num 100)"
  by (simp add: on_state_changed_def)

text \<open>A part of the whole is rounded to a number between 0 and 1, and its percentage to
  a number between 0 and 100.\<close>

lemma progress_bounded:
  assumes "0 < totalBytes s" and "bytesTransferred s \<le> totalBytes s"
  obtains r p where
    "to_double (of_nat (bytesTransferred s) / of_nat (totalBytes s)) = Num r"
    "0 \<le> r" "r \<le> 1" "to_double (r * 100) = Num p" "0 \<le> p" "p \<le> 100"
    "uploadProgress (on_state_changed s st) = Num p"
proof -
  let ?x = "of_nat (bytesTransferred s) / of_nat (totalBytes s) :: rat"
  from assms(2) have "(of_nat (bytesTransferred s) :: rat) \<le> of_nat (totalBytes s)"
    by (simp only: of_nat_le_iff)
  with assms(1) have x: "0 \<le> ?x" "?x \<le> 1"
    by (simp_all add: divide_le_eq_1)
  obtain r where r: "to_double ?x = Num r" "0 \<le> r" "r \<le> 1"
    using x by (rule to_double_unit)
  obtain p where p: "to_double (r * 100) = Num p" "0 \<le> p" "p \<le> 100"
    using r(2,3) by (rule to_double_percent)
  have "uploadProgress (on_state_changed s st) = Num p"
    by (simp add: progress_value [OF assms(1)] r(1) p(1))
  with r p that show ?thesis by blast
qed

text \<open>The product by 100 is monotone on the numbers that are not negative.\<close>

lemma percent_mono:
  assumes "js_le d d'"
    and "d = PInf \<or> (\<exists>r. d = Num r \<and> 0 \<le> r)"
    and "d' = PInf \<or> (\<exists>r. d' = Num r \<and> 0 \<le> r)"
  shows "js_le (js_mul d (Num 100)) (js_mul d' (Num 100))"
proof (cases d')
  case PInf
  have "js_mul d (Num 100) \<noteq> NaN"
    using assms(2) to_double_not_NaN by auto
  then show ?thesis
    by (cases "js_mul d (Num 100)") (simp_all add: PInf)
next
  case (Num r')
  with assms(1,2) obtain r where r: "d = Num r" "0 \<le> r" "r \<le> r'" by auto
  then have "0 \<le> r * 100" and "r * 100 \<le> r' * 100" by simp_all
  then have "js_le (to_double (r * 100)) (to_double (r' * 100))" by (rule to_double_mono)
  then show ?thesis by (simp add: r(1) Num)
qed (use assms(3) in simp_all)

lemma progress_mono:
  assumes "0 < totalBytes s" and "totalBytes s' = totalBytes s"
    and "bytesTransferred s \<le> bytesTransferred s'"
  shows "js_le (uploadProgress (on_state_changed s st)) (uploadProgress (on_state_changed s' st'))"
proof -
  let ?x = "of_nat (bytesTransferred s) / of_nat (totalBytes s) :: rat"
  let ?x' = "of_nat (bytesTransferred s') / of_nat (totalBytes s) :: rat"
  from assms(3) have "(of_nat (bytesTransferred s) :: rat) \<le> of_nat (bytesTransferred s')"
    by (simp only: of_nat_le_iff)
  then have le: "?x \<le> ?x'" by (rule divide_right_mono) simp
  have x: "0 \<le> ?x" and x': "0 \<le> ?x'" by simp_all
  have "js_le (js_mul (to_double ?x) (Num 100)) (js_mul (to_double ?x') (Num 100))"
    using to_double_mono [OF x le] to_double_nonneg [OF x] to_double_nonneg [OF x']
    by (rule percent_mono)
  moreover from assms have "0 < totalBytes s" and "0 < totalBytes s'" by simp_all
  ultimately show ?thesis
    by (simp only: progress_value assms(2))
qed

text \<open>
  Claim C8, as the code has it. For a snapshot of the transfer of a non-empty file,
  with no more bytes transferred than the file has, the progress value is the
  percentage \<open>bytesTransferred / totalBytes * 100\<close> in the arithmetic of doubles (the
  quotient is rounded, and its product by 100 is rounded), between 0 and 100; over the
  snapshots of one transfer, reported with a number of bytes transferred that does not
  decrease, the progress values do not decrease; and with all bytes transferred the
  progress is 100.
\<close>

theorem upload_progress:
  "(0 < totalBytes s \<and> bytesTransferred s \<le> totalBytes s \<longrightarrow>
      (\<exists>r p. to_double (of_nat (bytesTransferred s) / of_nat (totalBytes s)) = Num r
             \<and> to_double (r * 100) = Num p
             \<and> uploadProgress (on_state_changed s st) = Num p)
      \<and> js_le (Num 0) (uploadProgress (on_state_changed s st))
      \<and> js_le (uploadProgress (on_state_changed s st)) (Num 100))
   \<and> (0 < n \<and> (\<forall>x \<in> set snaps. totalBytes x = n) \<and> sorted (map bytesTransferred snaps) \<longrightarrow>
      sorted_wrt js_le (map (\<lambda>x. uploadProgress (on_state_changed x st)) snaps))
   \<and> (0 < totalBytes s \<and> bytesTransferred s = totalBytes s \<longrightarrow>
      uploadProgress (on_state_changed s st) = Num 100)"
proof (intro conjI impI)
  assume a: "0 < totalBytes s \<and> bytesTransferred s \<le> totalBytes s"
  then have t: "0 < totalBytes s" and b: "bytesTransferred s \<le> totalBytes s" by simp_all
  obtain r p where rp:
    "to_double (of_nat (bytesTransferred s) / of_nat (totalBytes s)) = Num r"
    "to_double (r * 100) = Num p" "0 \<le> p" "p \<le> 100"
    "uploadProgress (on_state_changed s st) = Num p"
    using t b by (rule progress_bounded)
  from rp(1,2,5)
  show "\<exists>r p. to_double (of_nat (bytesTransferred s) / of_nat (totalBytes s)) = Num r
             \<and> to_double (r * 100) = Num p
             \<and> uploadProgress (on_state_changed s st) = Num p"
    by blast
  from rp(3) show "js_le (Num 0) (uploadProgress (on_state_changed s st))"
    by (simp add: rp(5))
  from rp(4) show "js_le (uploadProgress (on_state_changed s st)) (Num 100)"
    by (simp add: rp(5))
next
  assume a: "0 < n \<and> (\<forall>x \<in> set snaps. totalBytes x = n) \<and> sorted (map bytesTransferred snaps)"
  then have "sorted_wrt (\<lambda>x y. bytesTransferred x \<le> bytesTransferred y) snaps"
    by (simp add: sorted_map)
  then have "sorted_wrt (\<lambda>x y. js_le (uploadProgress (on_state_changed x st))
                                  (uploadProgress (on_state_changed y st))) snaps"
  proof (rule sorted_wrt_mono_rel [rotated])
    fix x y
    assume "x \<in> set snaps" and "y \<in> set snaps" and "bytesTransferred x \<le> bytesTransferred y"
    with a show "js_le (uploadProgress (on_state_changed x st))
                   (uploadProgress (on_state_changed y st))"
      by (intro progress_mono) simp_all
  qed
  then show "sorted_wrt js_le (map (\<lambda>x. uploadProgress (on_state_changed x st)) snaps)"
    by (simp add: sorted_wrt_map)
next
  assume "0 < totalBytes s \<and> bytesTransferred s = totalBytes s"
  then show "uploadProgress (on_state_changed s st) = Num 100"
    by (simp add: progress_value to_double_1 to_double_100)
qed

theorem upload_progress_witness:
  "map (\<lambda>s. uploadProgress (on_state_changed s example_upload)) (snapshots example_env)
     = [Num 0, Num (1844674407370955 / 70368744177664), Num 100]
   \<and> sorted (map bytesTransferred (snapshots example_env))
   \<and> sorted_wrt js_le
        (map (\<lambda>s. uploadProgress (on_state_changed s example_upload)) (snapshots example_env))"
  using upload_progress [where s = "\<lparr>bytesTransferred = 262144, totalBytes = 1000000\<rparr>"
      and snaps = "snapshots example_env" and n = 1000000 and st = example_upload]
  by (simp add: example_defs on_state_changed_def rd_defs)

text \<open>
  The claim as the specification states it fails: the last progress value of a complete
  transfer is 100, which is not in \<open>[0, 1]\<close>, and a quarter-done transfer does not show
  the fraction; after a successful upload the handler sets the progress back to 0.
\<close>

theorem progress_percent_counterexample:
  "uploadProgress (on_state_changed \<lparr>bytesTransferred = 1000000, totalBytes = 1000000\<rparr>
       example_upload) = Num 100
   \<and> \<not> js_le (uploadProgress
               (on_state_changed \<lparr>bytesTransferred = 1000000, totalBytes = 1000000\<rparr>
                  example_upload)) (Num 1)
   \<and> uploadProgress (on_state_changed \<lparr>bytesTransferred = 262144, totalBytes = 1000000\<rparr>
         example_upload) \<noteq> Num (262144 / 1000000)
   \<and> uploadProgress (fst (handleUpload example_env (example_upload, []))) = Num 0"
  by (simp add: example_defs handler_defs js_defs)

section \<open>The switch of a version\<close>

text \<open>
  Claim C5. For a version that is in the catalog, \<^verbatim>\<open>toggleVersionStatus\<close> changes the
  field \<open>isActive\<close> of that document and nothing else: the document keeps its other
  fields, every other document is as before, the collection has the same ids in the
  same places, and the ordered result of the query is the old one with that one field
  changed, so no version moves.
\<close>

theorem toggle_frame:
  assumes "map_of db versionId = Some d"
  shows "case toggleVersionStatus versionId currentStatus db of
           (r, db', out) \<Rightarrow>
             map_of db' versionId = Some (d\<lparr>isActive := \<not> currentStatus\<rparr>)
             \<and> (\<forall>k. k \<noteq> versionId \<longrightarrow> map_of db' k = map_of db k)
             \<and> map fst db' = map fst db
             \<and> app_versions_query db' =
                 map (\<lambda>(k, x). if k = versionId then (k, x\<lparr>isActive := \<not> currentStatus\<rparr>)
                                else (k, x))
                   (app_versions_query db)
             \<and> map fst (app_versions_query db') = map fst (app_versions_query db)"
proof -
  let ?f = "\<lambda>(k, x). if k = versionId then (k, x\<lparr>isActive := \<not> currentStatus\<rparr>)
                       else (k, x::version_doc)"
  have key: "\<And>v. order_key (?f v) = order_key v"
    by (auto simp: order_key_def split: prod.splits)
  have ids: "\<And>xs. map fst (map ?f xs) = map fst xs"
    by (auto split: prod.splits)
  have t: "toggleVersionStatus versionId currentStatus db = (Inr (), map ?f db, [])"
    using assms by (simp add: toggleVersionStatus_def updateDoc_found)
  have q: "app_versions_query (map ?f db) = map ?f (app_versions_query db)"
    using key by (rule query_map_same)
  show ?thesis
    unfolding t using assms
    by (simp add: map_of_map_upd q ids del: map_map)
qed

theorem toggle_frame_witness:
  "map_of example_db ''version_18'' \<noteq> None
   \<and> app_versions_query (fst (snd (toggleVersionStatus ''version_18'' True example_db))) =
       [(''version_18'',
         \<lparr>versionName = ''1.10'', versionCode = Num 18,
          downloadUrl = ''https://example.com/a.apk'', changelog = ''fixes'',
          fileSize = Num 26738688, uploadedAt = 1000, uploadedBy = ''admin'',
          isCritical = True, isActive = False, downloadCount = 0\<rparr>)]"
  using toggle_frame [where db = example_db and versionId = "''version_18''"
      and currentStatus = True]
  by (simp add: example_db_eq app_versions_query_def split: prod.splits)

text \<open>
  Claim C6, as the code has it. The caller of \<^verbatim>\<open>toggleVersionStatus\<close> gets the same
  fulfilled promise, with no value, whether or not the version exists. When it does
  not exist, the rejection of \<^verbatim>\<open>updateDoc\<close> is caught and written to the console, and
  the catalog stays as it is; when it exists, the update is applied and nothing is
  written.
\<close>

theorem toggle_result:
  "case toggleVersionStatus versionId currentStatus db of
     (r, db', out) \<Rightarrow>
       r = Inr ()
       \<and> (if map_of db versionId = None
          then db' = db \<and> out = [ConsoleError ''Error toggling status:'']
          else updateDoc versionId (\<lambda>d. d\<lparr>isActive := \<not> currentStatus\<rparr>) db = Inr db'
               \<and> out = [])"
  by (auto simp: toggleVersionStatus_def updateDoc_def split: option.splits)

theorem toggle_result_witness:
  "toggleVersionStatus ''version_99'' True example_db
     = (Inr (), example_db, [ConsoleError ''Error toggling status:''])
   \<and> fst (toggleVersionStatus ''version_18'' True example_db) = Inr ()
   \<and> snd (snd (toggleVersionStatus ''version_18'' True example_db)) = []"
  using toggle_result [where versionId = "''version_99''" and currentStatus = True
      and db = example_db]
    toggle_result [where versionId = "''version_18''" and currentStatus = True
      and db = example_db]
  by (simp add: example_db_eq split: prod.splits)

text \<open>
  The claim as the specification states it fails: with only version 18 in the catalog,
  the switch of the missing version 99 does not come back as \<open>NotFound\<close>; its result is
  the result of the switch of version 18.
\<close>

theorem toggle_missing_counterexample:
  "map_of example_db ''version_99'' = None
   \<and> fst (toggleVersionStatus ''version_99'' True example_db) \<noteq> Inl NotFound
   \<and> fst (toggleVersionStatus ''version_99'' True example_db)
       = fst (toggleVersionStatus ''version_18'' True example_db)"
  by (simp add: example_db_eq toggleVersionStatus_def updateDoc_def)

text \<open>
  Claim C7. Setting \<open>isActive\<close> of an existing version to a value \<open>val\<close> (the call
  \<^verbatim>\<open>toggleVersionStatus(id, !val)\<close>) twice in a row leaves the catalog as the first call
  left it; neither call reports an error, and the version ends with \<open>isActive = val\<close>.
\<close>

theorem toggle_idempotent:
  assumes "map_of db versionId = Some d"
  shows "case toggleVersionStatus versionId (\<not> val) db of
           (r1, db1, out1) \<Rightarrow>
             (case toggleVersionStatus versionId (\<not> val) db1 of
                (r2, db2, out2) \<Rightarrow>
                  db2 = db1 \<and> out1 = [] \<and> out2 = [] \<and> r1 = Inr () \<and> r2 = Inr ()
                  \<and> map_option isActive (map_of db2 versionId) = Some val)"
proof -
  let ?f = "\<lambda>(k, x). if k = versionId then (k, x\<lparr>isActive := val\<rparr>) else (k, x::version_doc)"
  have t1: "toggleVersionStatus versionId (\<not> val) db = (Inr (), map ?f db, [])"
    using assms by (simp add: toggleVersionStatus_def updateDoc_found)
  have m: "map_of (map ?f db) versionId = Some (d\<lparr>isActive := val\<rparr>)"
    using assms by (simp add: map_of_map_upd)
  have t2: "toggleVersionStatus versionId (\<not> val) (map ?f db)
              = (Inr (), map ?f (map ?f db), [])"
    using m by (simp add: toggleVersionStatus_def updateDoc_found)
  have idem: "map ?f (map ?f db) = map ?f db"
    by (auto split: prod.splits)
  show ?thesis
    unfolding t1 using m by (simp add: t2 idem del: map_map)
qed

theorem toggle_idempotent_witness:
  "map_of example_db ''version_18'' \<noteq> None
   \<and> (case toggleVersionStatus ''version_18'' True example_db of
         (r1, db1, out1) \<Rightarrow>
           (case toggleVersionStatus ''version_18'' True db1 of
              (r2, db2, out2) \<Rightarrow>
                db2 = db1 \<and> out1 = [] \<and> out2 = [] \<and> r1 = Inr () \<and> r2 = Inr ()
                \<and> map_option isActive (map_of db2 ''version_18'') = Some False))"
  using toggle_idempotent [where db = example_db and versionId = "''version_18''"
      and val = False]
  by (simp add: example_db_eq)

end
